theory Spec2Isabelle
  imports Complex_Main
begin

section \<open>Characters and strings\<close>

text \<open>
  A Python \<open>str\<close> is modelled as a \<open>string\<close> whose characters are the code points
  below 256 (what the Latin-1 branch of \<open>_decode_pdf_literal\<close> produces); a Python
  \<open>bytes\<close> value is modelled as a \<open>string\<close> of its bytes. The character classes below
  are those of Python 3 restricted to that range: \<open>is_space\<close> is \<open>str.isspace\<close> (used by
  \<open>\s\<close> in a text pattern and by \<open>str.strip\<close>), \<open>is_space_ascii\<close> is \<open>\s\<close> in a
  bytes pattern, \<open>is_digit\<close> is \<open>\d\<close>, \<open>is_word\<close> is \<open>\w\<close> (alphanumeric or underscore),
  \<open>is_upper\<close> is the class \<open>[A-Z]\<close>.
\<close>

definition ord :: "char \<Rightarrow> nat" where
  "ord c = of_char c"

definition is_space :: "char \<Rightarrow> bool" where
  "is_space c = (let n = ord c in (9 \<le> n \<and> n \<le> 13) \<or> (28 \<le> n \<and> n \<le> 32) \<or> n = 133 \<or> n = 160)"

definition is_space_ascii :: "char \<Rightarrow> bool" where
  "is_space_ascii c = (let n = ord c in (9 \<le> n \<and> n \<le> 13) \<or> n = 32)"

definition is_digit :: "char \<Rightarrow> bool" where
  "is_digit c = (let n = ord c in 48 \<le> n \<and> n \<le> 57)"

definition is_upper :: "char \<Rightarrow> bool" where
  "is_upper c = (let n = ord c in 65 \<le> n \<and> n \<le> 90)"

definition is_word :: "char \<Rightarrow> bool" where
  "is_word c = (let n = ord c in
     (48 \<le> n \<and> n \<le> 57) \<or> (65 \<le> n \<and> n \<le> 90) \<or> n = 95 \<or> (97 \<le> n \<and> n \<le> 122)
     \<or> n = 170 \<or> n = 178 \<or> n = 179 \<or> n = 181 \<or> n = 185 \<or> n = 186
     \<or> (188 \<le> n \<and> n \<le> 190) \<or> (192 \<le> n \<and> n \<le> 214) \<or> (216 \<le> n \<and> n \<le> 246)
     \<or> 248 \<le> n)"

definition lower_char :: "char \<Rightarrow> char" where
  "lower_char c = (let n = ord c in
     if (65 \<le> n \<and> n \<le> 90) \<or> (192 \<le> n \<and> n \<le> 214) \<or> (216 \<le> n \<and> n \<le> 222)
     then char_of (n + 32) else c)"

definition lower :: "string \<Rightarrow> string" where
  "lower s = map lower_char s"

definition strip_chars :: "(char \<Rightarrow> bool) \<Rightarrow> string \<Rightarrow> string" where
  "strip_chars P s = rev (dropWhile P (rev (dropWhile P s)))"

definition strip :: "string \<Rightarrow> string" where
  "strip s = strip_chars is_space s"

fun starts_with :: "string \<Rightarrow> string \<Rightarrow> bool" where
  "starts_with [] s = True"
| "starts_with (x # xs) [] = False"
| "starts_with (x # xs) (c # cs) = (x = c \<and> starts_with xs cs)"

definition ends_with :: "string \<Rightarrow> string \<Rightarrow> bool" where
  "ends_with suffix s = starts_with (rev suffix) (rev s)"

text \<open>\<open>contains sub s\<close> is Python's \<open>sub in s\<close>.\<close>

fun contains :: "string \<Rightarrow> string \<Rightarrow> bool" where
  "contains sub [] = (sub = [])"
| "contains sub (c # cs) = (starts_with sub (c # cs) \<or> contains sub cs)"

text \<open>
  \<open>find_from sub s start\<close> is \<open>s.find(sub, start)\<close> for \<open>start \<le> len(s)\<close>:
  the least index at or after \<open>start\<close> where \<open>sub\<close> occurs, \<open>None\<close> for Python's \<open>-1\<close>.
\<close>

fun find_in :: "string \<Rightarrow> nat \<Rightarrow> string \<Rightarrow> nat option" where
  "find_in sub pos [] = (if sub = [] then Some pos else None)"
| "find_in sub pos (c # cs) =
     (if starts_with sub (c # cs) then Some pos else find_in sub (Suc pos) cs)"

definition find_from :: "string \<Rightarrow> string \<Rightarrow> nat \<Rightarrow> nat option" where
  "find_from sub s start = find_in sub start (drop start s)"

text \<open>
  \<open>replace old new s\<close> is \<open>s.replace(old, new)\<close> for a non-empty \<open>old\<close>: occurrences
  are replaced from the left and do not overlap. The program only replaces non-empty
  strings; an empty \<open>old\<close> leaves \<open>s\<close> unchanged here.
\<close>

function replace :: "string \<Rightarrow> string \<Rightarrow> string \<Rightarrow> string" where
  "replace old new [] = []"
| "replace old new (c # cs) =
     (if old \<noteq> [] \<and> starts_with old (c # cs)
      then new @ replace old new (drop (length old) (c # cs))
      else c # replace old new cs)"
  by pat_completeness auto
termination
  by (relation "measure (\<lambda>(old, new, s). length s)") auto

text \<open>\<open>join sep xs\<close> is \<open>sep.join(xs)\<close>.\<close>

fun join :: "string \<Rightarrow> string list \<Rightarrow> string" where
  "join sep [] = []"
| "join sep [x] = x"
| "join sep (x # y # ys) = x @ sep @ join sep (y # ys)"

section \<open>Regular expressions\<close>

text \<open>
  The patterns of the program are values of \<open>regex\<close>, and \<open>rmatch\<close> is a backtracking
  matcher in the order of Python's \<open>re\<close>: it returns every way the pattern can match at
  the current position, the one Python prefers first. A match state is the character before
  the position (\<open>None\<close> at the start of the string), the rest of the string, and the
  groups closed so far (group number and text, the latest first).

  \<open>Rep lo hi r\<close> is the greedy repetition \<open>r{lo,hi}\<close> (\<open>hi = None\<close>: unbounded),
  \<open>Lazy r\<close> is \<open>r*?\<close>, \<open>Grp i r\<close> is the capturing group number \<open>i\<close>, \<open>WordB\<close> is
  \<open>\b\<close>, \<open>Bos\<close> is \<open>^\<close> without the MULTILINE flag. A repetition only continues after
  an iteration that consumed a character; every repeated pattern of the program is a single
  character class.
\<close>

datatype regex =
    Eps
  | Cls "char \<Rightarrow> bool"
  | Seq regex regex
  | Alt regex regex
  | Rep nat "nat option" regex
  | Lazy regex
  | Grp nat regex
  | WordB
  | Bos

type_synonym mstate = "char option \<times> string \<times> (nat \<times> string) list"

definition word_before :: "char option \<Rightarrow> bool" where
  "word_before p = (case p of None \<Rightarrow> False | Some c \<Rightarrow> is_word c)"

definition word_after :: "string \<Rightarrow> bool" where
  "word_after s = (case s of [] \<Rightarrow> False | c # cs \<Rightarrow> is_word c)"

function rmatch :: "regex \<Rightarrow> mstate \<Rightarrow> mstate list" where
  "rmatch Eps st = [st]"
| "rmatch (Cls P) (prev, s, caps) =
     (case s of [] \<Rightarrow> [] | c # cs \<Rightarrow> if P c then [(Some c, cs, caps)] else [])"
| "rmatch (Seq a b) st = concat (map (rmatch b) (rmatch a st))"
| "rmatch (Alt a b) st = rmatch a st @ rmatch b st"
| "rmatch (Rep lo hi a) (prev, s, caps) =
     (if hi = Some 0 then []
      else concat (map (\<lambda>(prev', s', caps').
             if length s' < length s
             then rmatch (Rep (lo - 1) (map_option (\<lambda>h. h - 1) hi) a) (prev', s', caps')
             else [])
           (rmatch a (prev, s, caps))))
     @ (if lo = 0 then [(prev, s, caps)] else [])"
| "rmatch (Lazy a) (prev, s, caps) =
     (prev, s, caps) #
     concat (map (\<lambda>(prev', s', caps').
             if length s' < length s then rmatch (Lazy a) (prev', s', caps') else [])
           (rmatch a (prev, s, caps)))"
| "rmatch (Grp i a) (prev, s, caps) =
     map (\<lambda>(prev', s', caps'). (prev', s', (i, take (length s - length s') s) # caps'))
       (rmatch a (prev, s, caps))"
| "rmatch WordB (prev, s, caps) =
     (if word_before prev \<noteq> word_after s then [(prev, s, caps)] else [])"
| "rmatch Bos (prev, s, caps) = (if prev = None then [(prev, s, caps)] else [])"
  by pat_completeness auto
termination
  by (relation "(\<lambda>(r, st). size r) <*mlex*> measure (\<lambda>(r, (p, s, c)). length s)")
     (auto simp: wf_mlex mlex_prod_def)

text \<open>
  \<open>finditer_from\<close> scans like \<open>re.finditer\<close>: at each position the first result of
  \<open>rmatch\<close> is the match; the scan resumes where the match ended, or one character on where
  nothing matched. A result is the start and end index of the match and its groups. An empty
  match is recorded and the scan moves one character on; no pattern of the program matches
  the empty string.
\<close>

function finditer_from ::
  "regex \<Rightarrow> nat \<Rightarrow> char option \<Rightarrow> string \<Rightarrow> (nat \<times> nat \<times> (nat \<times> string) list) list" where
  "finditer_from r pos prev s =
     (case rmatch r (prev, s, []) of
        [] \<Rightarrow> (case s of [] \<Rightarrow> [] | c # cs \<Rightarrow> finditer_from r (Suc pos) (Some c) cs)
      | (prev', s', caps) # alternatives \<Rightarrow>
          if length s' < length s
          then (pos, pos + (length s - length s'), caps)
                 # finditer_from r (pos + (length s - length s')) prev' s'
          else (pos, pos, caps)
                 # (case s of [] \<Rightarrow> [] | c # cs \<Rightarrow> finditer_from r (Suc pos) (Some c) cs))"
  by pat_completeness auto
termination
  by (relation "measure (\<lambda>(r, pos, prev, s). length s)") auto

definition finditer :: "regex \<Rightarrow> string \<Rightarrow> (nat \<times> nat \<times> (nat \<times> string) list) list" where
  "finditer r s = finditer_from r 0 None s"

text \<open>
  \<open>group caps i\<close> is the text of group \<open>i\<close> as \<open>findall\<close> reports it: the empty string
  for a group that took no part in the match.
\<close>

definition group :: "(nat \<times> string) list \<Rightarrow> nat \<Rightarrow> string" where
  "group caps i = (case map_of caps i of None \<Rightarrow> [] | Some g \<Rightarrow> g)"

text \<open>
  \<open>re.findall\<close> returns the text of the group for a pattern with one group (\<open>findall1\<close>)
  and the tuple of the groups for a pattern with three (\<open>findall3\<close>).
\<close>

definition findall1 :: "regex \<Rightarrow> string \<Rightarrow> string list" where
  "findall1 r s = map (\<lambda>(b, e, caps). group caps 1) (finditer r s)"

definition findall3 :: "regex \<Rightarrow> string \<Rightarrow> (string \<times> string \<times> string) list" where
  "findall3 r s = map (\<lambda>(b, e, caps). (group caps 1, group caps 2, group caps 3)) (finditer r s)"

text \<open>\<open>re.match\<close>: the groups of the match at the start of the string, if there is one.\<close>

definition re_match :: "regex \<Rightarrow> string \<Rightarrow> (nat \<times> string) list option" where
  "re_match r s =
     (case rmatch r (None, s, []) of [] \<Rightarrow> None | (prev', s', caps) # alternatives \<Rightarrow> Some caps)"

text \<open>
  \<open>re.split\<close> for a pattern without groups: the pieces between the matches.
  \<open>re.sub\<close> with a constant replacement joins these pieces with the replacement.
\<close>

fun split_at :: "nat \<Rightarrow> (nat \<times> nat \<times> (nat \<times> string) list) list \<Rightarrow> string \<Rightarrow> string list" where
  "split_at pos [] s = [drop pos s]"
| "split_at pos ((b, e, caps) # ms) s = take (b - pos) (drop pos s) # split_at e ms s"

definition re_split :: "regex \<Rightarrow> string \<Rightarrow> string list" where
  "re_split r s = split_at 0 (finditer r s) s"

definition re_sub :: "regex \<Rightarrow> string \<Rightarrow> string \<Rightarrow> string" where
  "re_sub r repl s = join repl (re_split r s)"

abbreviation Opt :: "regex \<Rightarrow> regex" where
  "Opt r \<equiv> Rep 0 (Some 1) r"

abbreviation Star :: "regex \<Rightarrow> regex" where
  "Star r \<equiv> Rep 0 None r"

abbreviation Plus :: "regex \<Rightarrow> regex" where
  "Plus r \<equiv> Rep 1 None r"

abbreviation Chr :: "char \<Rightarrow> regex" where
  "Chr c \<equiv> Cls (\<lambda>x. x = c)"

text \<open>A letter under the IGNORECASE flag: the letter itself or its capital.\<close>

abbreviation ChrI :: "char \<Rightarrow> char \<Rightarrow> regex" where
  "ChrI c d \<equiv> Cls (\<lambda>x. x = c \<or> x = d)"

fun lit :: "string \<Rightarrow> regex" where
  "lit [] = Eps"
| "lit (c # cs) = Seq (Chr c) (lit cs)"

subsection \<open>The patterns of the program\<close>

text \<open>\<open>number_pat n\<close> is \<open>\d{1,n}(?:[\.,]\d+)?\<close>.\<close>

definition number_pat :: "nat \<Rightarrow> regex" where
  "number_pat n = Seq (Rep 1 (Some n) (Cls is_digit))
                      (Opt (Seq (ChrI (CHR ''.'') (CHR '','')) (Plus (Cls is_digit))))"

text \<open>\<open>code_pat\<close> is \<open>[A-Z]{1,4}(?:-[A-Z]{1,3})?\<close>.\<close>

definition code_pat :: regex where
  "code_pat = Seq (Rep 1 (Some 4) (Cls is_upper))
                  (Opt (Seq (Chr (CHR ''-'')) (Rep 1 (Some 3) (Cls is_upper))))"

definition CONFIG_CODE_RE :: regex where
  "CONFIG_CODE_RE = Seq WordB (Seq (Grp 1 code_pat) WordB)"

definition NUMBER_M_RE :: regex where
  "NUMBER_M_RE = Seq (Grp 1 (number_pat 3)) (Seq (Star (Cls is_space))
                (Seq (ChrI (CHR ''m'') (CHR ''M'')) WordB))"

definition NUMBER_T_RE :: regex where
  "NUMBER_T_RE = Seq (Grp 1 (number_pat 4)) (Seq (Star (Cls is_space))
                (Seq (ChrI (CHR ''t'') (CHR ''T'')) WordB))"

definition TRIPLE_RE :: regex where
  "TRIPLE_RE =
     Seq (Grp 1 (number_pat 3)) (Seq (Star (Cls is_space)) (Seq (ChrI (CHR ''m'') (CHR ''M''))
    (Seq (Plus (Cls is_space))
    (Seq (Grp 2 (number_pat 3)) (Seq (Star (Cls is_space)) (Seq (ChrI (CHR ''m'') (CHR ''M''))
    (Seq (Plus (Cls is_space))
    (Seq (Grp 3 (number_pat 4)) (Seq (Star (Cls is_space)) (Seq (ChrI (CHR ''t'') (CHR ''T''))
     WordB))))))))))"

text \<open>The pattern of \<open>split_candidates\<close>: \<open>\s{2,}|\s\|\s|\s-\s\<close>.\<close>

definition SPLIT_RE :: regex where
  "SPLIT_RE = Alt (Rep 2 None (Cls is_space))
             (Alt (Seq (Cls is_space) (Seq (Chr (CHR ''|'')) (Cls is_space)))
                  (Seq (Cls is_space) (Seq (Chr (CHR ''-'')) (Cls is_space))))"

text \<open>The whitespace pattern \<open>\s+\<close>.\<close>

definition WS_RE :: regex where
  "WS_RE = Plus (Cls is_space)"

text \<open>The pattern of the configuration switch: \<open>^([A-Z]{1,4}(?:-[A-Z]{1,3})?)\b\<close>.\<close>

definition LEADING_CODE_RE :: regex where
  "LEADING_CODE_RE = Seq Bos (Seq (Grp 1 code_pat) WordB)"

text \<open>
  The bytes patterns of \<open>extract_pdf_text\<close>: \<open>stream\r?\n\<close>, and with the DOTALL flag
  \<open>\((.*?)\)\s*Tj\<close>, \<open>\[(.*?)\]\s*TJ\<close> and \<open>\((.*?)\)\<close>.
\<close>

definition STREAM_RE :: regex where
  "STREAM_RE = Seq (lit ''stream'') (Seq (Opt (Chr (CHR 0x0D))) (Chr (CHR 0x0A)))"

definition TJ_RE :: regex where
  "TJ_RE = Seq (Chr (CHR ''('')) (Seq (Grp 1 (Lazy (Cls (\<lambda>x. True)))) (Seq (Chr (CHR '')''))
          (Seq (Star (Cls is_space_ascii)) (lit ''Tj''))))"

definition TJ_ARRAY_RE :: regex where
  "TJ_ARRAY_RE = Seq (Chr (CHR ''['')) (Seq (Grp 1 (Lazy (Cls (\<lambda>x. True)))) (Seq (Chr (CHR '']''))
          (Seq (Star (Cls is_space_ascii)) (lit ''TJ''))))"

definition LITERAL_RE :: regex where
  "LITERAL_RE = Seq (Chr (CHR ''('')) (Seq (Grp 1 (Lazy (Cls (\<lambda>x. True)))) (Chr (CHR '')'')))"

section \<open>Errors and floats\<close>

text \<open>
  The exceptions that the operations used by the program can raise. A computation that may
  raise returns \<open>pyerr + 'a\<close>, with \<open>Inl\<close> for the exception.
\<close>

datatype pyerr = ValueError | TypeError | IndexError | ZlibError

definition bind :: "pyerr + 'a \<Rightarrow> ('a \<Rightarrow> pyerr + 'b) \<Rightarrow> pyerr + 'b" where
  "bind m f = (case m of Inl e \<Rightarrow> Inl e | Inr x \<Rightarrow> f x)"

text \<open>
  A Python \<open>float\<close> is an IEEE 754 double: a finite value is kept as the rational number
  it stands for (the two zeros are one value, as they are equal in Python).
\<close>

datatype pyfloat = Finite rat | PosInf | NegInf | NaN

text \<open>\<open>bitlen n\<close> is the number of binary digits of a positive integer \<open>n\<close>.\<close>

function bitlen :: "int \<Rightarrow> nat" where
  "bitlen n = (if n \<le> 0 then 0 else Suc (bitlen (n div 2)))"
  by pat_completeness auto
termination
  by (relation "measure nat") auto

declare bitlen.simps [simp del]

definition pow2 :: "int \<Rightarrow> rat" where
  "pow2 e = (if 0 \<le> e then 2 ^ nat e else 1 / 2 ^ nat (- e))"

definition pow10 :: "int \<Rightarrow> rat" where
  "pow10 e = (if 0 \<le> e then 10 ^ nat e else 1 / 10 ^ nat (- e))"

text \<open>\<open>ilog2 x\<close> is the binary exponent of a positive \<open>x\<close>: \<open>2 ^ ilog2 x \<le> x < 2 ^ (ilog2 x + 1)\<close>.\<close>

definition ilog2 :: "rat \<Rightarrow> int" where
  "ilog2 x = (let (a, b) = quotient_of x;
                  k = int (bitlen a) - int (bitlen b)
              in if pow2 k \<le> x then k else k - 1)"

definition round_half_even :: "rat \<Rightarrow> int" where
  "round_half_even x = (let f = \<lfloor>x\<rfloor>; r = x - of_int f
     in if r < 1 / 2 then f else if 1 / 2 < r then f + 1 else if even f then f else f + 1)"

text \<open>
  \<open>round_double x\<close> is the double nearest to \<open>x \<ge> 0\<close> (ties to even), with 53 bits of
  precision, the least exponent -1022 (below it the spacing stays \<open>2 ^ -1074\<close>), and
  \<open>None\<close> where the rounded value exceeds the largest double.
\<close>

definition round_double :: "rat \<Rightarrow> rat option" where
  "round_double x = (if x = 0 then Some 0 else
     let e = max (ilog2 x) (- 1022);
         q = pow2 (e - 52);
         r = of_int (round_half_even (x / q)) * q
     in if pow2 1024 \<le> r then None else Some r)"

text \<open>
  The builtin \<open>float(s)\<close> on a string: surrounding whitespace is dropped, an underscore
  may stand between two digits, then an optional sign and either \<open>inf\<close>, \<open>infinity\<close>,
  \<open>nan\<close> (in any case) or a decimal number with an optional exponent; anything else is a
  \<open>ValueError\<close>. The number is rounded to the nearest double, to an infinity when it is
  too large.
\<close>

definition float_space :: "char \<Rightarrow> bool" where
  "float_space c = (let n = ord c in (9 \<le> n \<and> n \<le> 13) \<or> n = 32 \<or> n = 133 \<or> n = 160)"

fun drop_underscores :: "char \<Rightarrow> string \<Rightarrow> string option" where
  "drop_underscores prev [] = (if prev = CHR ''_'' then None else Some [])"
| "drop_underscores prev (c # cs) =
     (if c = CHR ''_'' then (if is_digit prev then drop_underscores c cs else None)
      else if prev = CHR ''_'' \<and> \<not> is_digit c then None
      else map_option ((#) c) (drop_underscores c cs))"

definition digits_val :: "string \<Rightarrow> int" where
  "digits_val ds = foldl (\<lambda>a c. 10 * a + (int (ord c) - 48)) 0 ds"

text \<open>
  \<open>parse_exponent s\<close> reads \<open>e\<close> or \<open>E\<close>, an optional sign and at least one digit from
  the front of \<open>s\<close>; it returns the exponent and what follows, and \<open>(0, s)\<close> when \<open>s\<close> does
  not start with a well-formed exponent.
\<close>

definition parse_exponent :: "string \<Rightarrow> int \<times> string" where
  "parse_exponent s =
     (case s of [] \<Rightarrow> (0, s)
      | c # cs \<Rightarrow>
          if c = CHR ''e'' \<or> c = CHR ''E'' then
            (let (neg, ds) = (case cs of [] \<Rightarrow> (False, cs)
                              | d # ds' \<Rightarrow> if d = CHR ''-'' then (True, ds')
                                           else if d = CHR ''+'' then (False, ds') else (False, cs));
                 digs = takeWhile is_digit ds
             in if digs = [] then (0, s)
                else ((if neg then - digits_val digs else digits_val digs),
                      dropWhile is_digit ds))
          else (0, s))"

definition parse_decimal :: "string \<Rightarrow> rat option" where
  "parse_decimal s =
     (let ip = takeWhile is_digit s;
          r1 = dropWhile is_digit s;
          (fp, r2) = (case r1 of [] \<Rightarrow> ([], r1)
                      | c # cs \<Rightarrow> if c = CHR ''.''
                                  then (takeWhile is_digit cs, dropWhile is_digit cs)
                                  else ([], r1))
      in if ip = [] \<and> fp = [] then None
         else (let (ex, r3) = parse_exponent r2
               in if r3 \<noteq> [] then None
                  else Some (of_int (digits_val (ip @ fp)) * pow10 (ex - int (length fp)))))"

definition py_float :: "string \<Rightarrow> pyerr + pyfloat" where
  "py_float s =
     (case drop_underscores (CHR 0x00) (strip_chars float_space s) of
        None \<Rightarrow> Inl ValueError
      | Some t \<Rightarrow>
          (let (neg, body) = (case t of [] \<Rightarrow> (False, t)
                              | c # cs \<Rightarrow> if c = CHR ''-'' then (True, cs)
                                          else if c = CHR ''+'' then (False, cs) else (False, t))
           in if lower body = ''inf'' \<or> lower body = ''infinity''
              then Inr (if neg then NegInf else PosInf)
              else if lower body = ''nan'' then Inr NaN
              else (case parse_decimal body of
                      None \<Rightarrow> Inl ValueError
                    | Some x \<Rightarrow>
                        (case round_double x of
                           None \<Rightarrow> Inr (if neg then NegInf else PosInf)
                         | Some r \<Rightarrow> Inr (Finite (if neg then - r else r))))))"

section \<open>The extraction functions\<close>

subsection \<open>\<open>split_candidates\<close>\<close>

definition split_candidates :: "string \<Rightarrow> string list" where
  "split_candidates text = re_split SPLIT_RE text"

text \<open>\<open>normalise part\<close> is \<open>re.sub(r"\s+", " ", part).strip()\<close>.\<close>

definition normalise :: "string \<Rightarrow> string" where
  "normalise part = strip (re_sub WS_RE '' '' part)"

subsection \<open>\<open>extract_configurations\<close>\<close>

definition CONFIG_HINTS :: "string list" where
  "CONFIG_HINTS = [''main boom'', ''hauptausleger'', ''jib'', ''klappspitze'', ''luffing'',
                   ''wipp'', ''fly'', ''swing-away'', ''offset'', ''boom'']"

definition STOP_CODES :: "string list" where
  "STOP_CODES = [''PDF'', ''LOAD'', ''CHART'', ''TON'', ''MT'', ''DEMAG'', ''TEREX'', ''TADANO'',
                 ''GROVE'', ''LIEBHERR'']"

text \<open>The inner loop over \<open>codes\<close>: the first code that is not on the stop list.\<close>

fun first_code :: "string list \<Rightarrow> string option" where
  "first_code [] = None"
| "first_code (c # cs) = (if c \<in> set STOP_CODES then first_code cs else Some c)"

text \<open>
  The dictionary \<open>configs\<close> is an association list in insertion order. \<open>config_step\<close> is
  the body of the loop over the parts, with each \<open>continue\<close> returning \<open>configs\<close>
  unchanged.
\<close>

definition config_step :: "(string \<times> string) list \<Rightarrow> string \<Rightarrow> (string \<times> string) list" where
  "config_step configs part =
     (let part_norm = normalise part in
      if length part_norm < 8 then configs
      else if \<not> list_ex (\<lambda>h. contains h (lower part_norm)) CONFIG_HINTS then configs
      else (let codes = findall1 CONFIG_CODE_RE part_norm in
            if codes = [] then configs
            else (case first_code codes of
                    None \<Rightarrow> configs
                  | Some code \<Rightarrow>
                      if code = [] then configs
                      else if map_of configs code = None
                      then configs @ [(code, take 220 part_norm)]
                      else configs)))"

definition configurations_of_parts :: "string list \<Rightarrow> (string \<times> string) list" where
  "configurations_of_parts parts = foldl config_step [] parts"

definition extract_configurations :: "string \<Rightarrow> (string \<times> string) list" where
  "extract_configurations text = configurations_of_parts (split_candidates text)"

subsection \<open>\<open>parse_float\<close> and \<open>likely_value\<close>\<close>

text \<open>
  \<open>parse_float\<close> returns a float or Python's \<open>None\<close>; the \<open>except\<close> clause turns every
  exception of \<open>float\<close> into \<open>None\<close>.
\<close>

definition parse_float :: "string \<Rightarrow> pyfloat option" where
  "parse_float v = (case py_float (replace '','' ''.'' v) of Inl e \<Rightarrow> None | Inr x \<Rightarrow> Some x)"

text \<open>
  \<open>likely_value v low high\<close> is \<open>low <= v <= high\<close>. The value may be \<open>None\<close> at run
  time, and comparing \<open>None\<close> with a number raises \<open>TypeError\<close>. The bounds are the
  numbers written at the call sites. A NaN compares false, and no infinity lies between two
  numbers.
\<close>

definition likely_value :: "pyfloat option \<Rightarrow> rat \<Rightarrow> rat \<Rightarrow> pyerr + bool" where
  "likely_value v low high =
     (case v of
        None \<Rightarrow> Inl TypeError
      | Some (Finite x) \<Rightarrow> Inr (low \<le> x \<and> x \<le> high)
      | Some PosInf \<Rightarrow> Inr False
      | Some NegInf \<Rightarrow> Inr False
      | Some NaN \<Rightarrow> Inr False)"

text \<open>\<open>and_also a b\<close> is Python's \<open>a and b\<close> on truth values: \<open>b\<close> is only evaluated when \<open>a\<close> is true.\<close>

definition and_also :: "pyerr + bool \<Rightarrow> pyerr + bool \<Rightarrow> pyerr + bool" where
  "and_also a b = bind a (\<lambda>x. if x then b else Inr False)"

subsection \<open>\<open>extract_load_points\<close>\<close>

text \<open>
  A row of \<open>points\<close> is the tuple the program appends: the configuration code, three
  values that are a float or \<open>None\<close> (boom length, radius, capacity), and the snippet.
\<close>

type_synonym load_point = "string \<times> pyfloat option \<times> pyfloat option \<times> pyfloat option \<times> string"

text \<open>The loop over the matches of \<open>TRIPLE_RE\<close>, appending to \<open>points\<close>.\<close>

fun triple_loop ::
  "string \<Rightarrow> string \<Rightarrow> load_point list \<Rightarrow> (string \<times> string \<times> string) list \<Rightarrow> pyerr + load_point list" where
  "triple_loop current_config p points [] = Inr points"
| "triple_loop current_config p points ((boom_s, radius_s, cap_s) # rest) =
     (let boom = parse_float boom_s; radius = parse_float radius_s; cap = parse_float cap_s in
      if boom = None \<or> radius = None \<or> cap = None
      then triple_loop current_config p points rest
      else bind (and_also (and_also (likely_value boom 5 200) (likely_value radius 1 200))
                          (likely_value cap (1 / 2) 5000))
             (\<lambda>ok. triple_loop current_config p
                     (if ok then points @ [(current_config, boom, radius, cap, take 220 p)]
                      else points) rest))"

text \<open>
  \<open>keep_likely lo hi xs\<close> is \<open>[x for x in xs if x is not None and likely_value(x, lo, hi)]\<close>.
\<close>

fun keep_likely :: "rat \<Rightarrow> rat \<Rightarrow> pyfloat option list \<Rightarrow> pyerr + pyfloat option list" where
  "keep_likely lo hi [] = Inr []"
| "keep_likely lo hi (x # xs) =
     bind (if x = None then Inr False else likely_value x lo hi)
       (\<lambda>keep. bind (keep_likely lo hi xs) (\<lambda>ys. Inr (if keep then x # ys else ys)))"

text \<open>\<open>first xs\<close> is \<open>xs[0]\<close>.\<close>

definition first :: "'a list \<Rightarrow> pyerr + 'a" where
  "first xs = (case xs of [] \<Rightarrow> Inl IndexError | x # rest \<Rightarrow> Inr x)"

definition fallback ::
  "string \<Rightarrow> string \<Rightarrow> load_point list \<Rightarrow> pyerr + load_point list" where
  "fallback current_config p points =
     bind (keep_likely 5 200 (map parse_float (findall1 NUMBER_M_RE p))) (\<lambda>ms.
     bind (keep_likely (1 / 2) 5000 (map parse_float (findall1 NUMBER_T_RE p))) (\<lambda>ts.
       if ms \<noteq> [] \<and> ts \<noteq> []
       then bind (first ms) (\<lambda>m0. bind (first ts) (\<lambda>t0.
              Inr (points @ [(current_config, m0, None, t0, take 220 p)])))
       else Inr points))"

text \<open>
  The body of the loop over the parts. The state is \<open>current_config\<close> and \<open>points\<close>.
\<close>

definition switch_config :: "string \<Rightarrow> string \<Rightarrow> string" where
  "switch_config current_config p =
     (case re_match LEADING_CODE_RE p of None \<Rightarrow> current_config | Some caps \<Rightarrow> group caps 1)"

definition load_step ::
  "string \<times> load_point list \<Rightarrow> string \<Rightarrow> pyerr + (string \<times> load_point list)" where
  "load_step state part =
     (let (current_config, points) = state; p = normalise part in
      if length p < 4 then Inr (current_config, points)
      else (let current_config = switch_config current_config p in
            bind (triple_loop current_config p points (findall3 TRIPLE_RE p)) (\<lambda>points.
            bind (fallback current_config p points) (\<lambda>points.
              Inr (current_config, points)))))"

fun load_loop ::
  "string \<times> load_point list \<Rightarrow> string list \<Rightarrow> pyerr + (string \<times> load_point list)" where
  "load_loop state [] = Inr state"
| "load_loop state (part # parts) = bind (load_step state part) (\<lambda>state. load_loop state parts)"

text \<open>The key of a row is \<open>row[:4]\<close>; \<open>dedup\<close> is the loop that fills \<open>unique\<close>.\<close>

type_synonym point_key = "string \<times> pyfloat option \<times> pyfloat option \<times> pyfloat option"

definition key_of :: "load_point \<Rightarrow> point_key" where
  "key_of row = (case row of (code, boom, radius, cap, snippet) \<Rightarrow> (code, boom, radius, cap))"

fun dedup :: "point_key set \<Rightarrow> load_point list \<Rightarrow> load_point list \<Rightarrow> load_point list" where
  "dedup seen unique [] = unique"
| "dedup seen unique (row # rows) =
     (if key_of row \<in> seen then dedup seen unique rows
      else dedup (insert (key_of row) seen) (unique @ [row]) rows)"

text \<open>
  \<open>collect_points\<close> is the list \<open>points\<close> when the loop over the parts has ended, and
  \<open>load_points_of_parts\<close> the result for a given sequence of parts.
\<close>

definition collect_points :: "string list \<Rightarrow> string \<Rightarrow> pyerr + load_point list" where
  "collect_points parts default_config =
     bind (load_loop (default_config, []) parts) (\<lambda>(current_config, points). Inr points)"

definition load_points_of_parts :: "string list \<Rightarrow> string \<Rightarrow> pyerr + load_point list" where
  "load_points_of_parts parts default_config =
     bind (collect_points parts default_config) (\<lambda>points. Inr (dedup {} [] points))"

definition extract_load_points :: "string \<Rightarrow> string \<Rightarrow> pyerr + load_point list" where
  "extract_load_points text default_config =
     load_points_of_parts (split_candidates text) default_config"

subsection \<open>\<open>extract_pdf_text\<close>\<close>

text \<open>
  Two operations of \<open>extract_pdf_text\<close> belong to libraries, not to the program, and are
  parameters of the model: \<open>decompress\<close> stands for \<open>zlib.decompress\<close>, which returns
  the inflated bytes or raises, and \<open>utf16\<close> for \<open>raw.decode("utf-16-be", "ignore")\<close>.
  Decoding as Latin-1 keeps every byte as the character of the same code.
\<close>

definition decode_pdf_literal :: "(string \<Rightarrow> pyerr + string) \<Rightarrow> string \<Rightarrow> string" where
  "decode_pdf_literal utf16 literal =
     (let raw = replace [CHR 0x5C, CHR ''t''] '' ''
               (replace [CHR 0x5C, CHR ''r''] '' ''
               (replace [CHR 0x5C, CHR ''n''] '' ''
               (replace [CHR 0x5C, CHR '')''] '')''
               (replace [CHR 0x5C, CHR ''(''] ''('' literal))))
      in if contains [CHR 0x00] raw
         then (case utf16 raw of Inl e \<Rightarrow> raw | Inr text \<Rightarrow> text)
         else raw)"

text \<open>
  \<open>literal_texts\<close> is the loop that decodes and strips each literal and appends the
  non-empty ones.
\<close>

definition literal_texts :: "(string \<Rightarrow> pyerr + string) \<Rightarrow> string list \<Rightarrow> string list" where
  "literal_texts utf16 literals =
     filter (\<lambda>text. text \<noteq> []) (map (\<lambda>literal. strip (decode_pdf_literal utf16 literal)) literals)"

text \<open>
  \<open>stream_at data start\<close> is the candidate stream that begins at index \<open>start\<close>: the bytes
  up to the next \<open>endstream\<close> without a final line end, \<open>None\<close> when no \<open>endstream\<close>
  follows.
\<close>

definition stream_at :: "string \<Rightarrow> nat \<Rightarrow> string option" where
  "stream_at data start =
     (case find_from ''endstream'' data start of
        None \<Rightarrow> None
      | Some end \<Rightarrow>
          (let stream = take (end - start) (drop start data)
           in Some (if ends_with [CHR 0x0D, CHR 0x0A] stream then take (length stream - 2) stream
                    else if ends_with [CHR 0x0A] stream then take (length stream - 1) stream
                    else stream)))"

text \<open>The body of the loop over the matches of \<open>stream\r?\n\<close>; \<open>m\<close> is a match.\<close>

definition pdf_step ::
  "(string \<Rightarrow> pyerr + string) \<Rightarrow> (string \<Rightarrow> pyerr + string) \<Rightarrow> string \<Rightarrow> string list
     \<Rightarrow> nat \<times> nat \<times> (nat \<times> string) list \<Rightarrow> string list" where
  "pdf_step decompress utf16 data chunks m =
     (case m of (m_start, m_end, caps) \<Rightarrow>
        (case stream_at data m_end of
           None \<Rightarrow> chunks
         | Some stream \<Rightarrow>
             (case decompress stream of
                Inl e \<Rightarrow> chunks
              | Inr decoded \<Rightarrow>
                  if \<not> contains ''Tj'' decoded \<and> \<not> contains ''TJ'' decoded then chunks
                  else chunks
                     @ literal_texts utf16 (findall1 TJ_RE decoded)
                     @ literal_texts utf16
                         (concat (map (findall1 LITERAL_RE) (findall1 TJ_ARRAY_RE decoded))))))"

definition extract_pdf_text ::
  "(string \<Rightarrow> pyerr + string) \<Rightarrow> (string \<Rightarrow> pyerr + string) \<Rightarrow> string \<Rightarrow> string" where
  "extract_pdf_text decompress utf16 data =
     (let chunks = foldl (pdf_step decompress utf16 data) [] (finditer STREAM_RE data);
          text = join '' '' chunks
      in strip (re_sub WS_RE '' '' text))"

text \<open>
  The core pipeline as \<open>build_database\<close> runs it on the bytes of one file: the text, then
  the configurations and the load points of that text.
\<close>

definition core_pipeline ::
  "(string \<Rightarrow> pyerr + string) \<Rightarrow> (string \<Rightarrow> pyerr + string) \<Rightarrow> string
     \<Rightarrow> (string \<times> string) list \<times> (pyerr + load_point list)" where
  "core_pipeline decompress utf16 data =
     (let text = extract_pdf_text decompress utf16 data
      in (extract_configurations text, extract_load_points text ''UNKNOWN''))"

section \<open>Notions used to state the properties\<close>

text \<open>
  \<open>in_range v lo hi\<close>: \<open>v\<close> is a finite float between \<open>lo\<close> and \<open>hi\<close>, both included.
\<close>

definition in_range :: "pyfloat option \<Rightarrow> rat \<Rightarrow> rat \<Rightarrow> bool" where
  "in_range v lo hi = (case v of Some (Finite x) \<Rightarrow> lo \<le> x \<and> x \<le> hi | _ \<Rightarrow> False)"

text \<open>
  The candidate streams of a file, in the order of the loop, and what makes one a valid
  compressed text stream: it inflates, and the result holds a text-showing operator.
\<close>

definition candidate_streams :: "string \<Rightarrow> string list" where
  "candidate_streams data =
     concat (map (\<lambda>(m_start, m_end, caps).
               case stream_at data m_end of None \<Rightarrow> [] | Some stream \<Rightarrow> [stream])
             (finditer STREAM_RE data))"

definition text_stream :: "(string \<Rightarrow> pyerr + string) \<Rightarrow> string \<Rightarrow> bool" where
  "text_stream decompress stream =
     (case decompress stream of
        Inl e \<Rightarrow> False
      | Inr decoded \<Rightarrow> contains ''Tj'' decoded \<or> contains ''TJ'' decoded)"

section \<open>Basic facts\<close>

subsection \<open>Exceptions\<close>

lemma bind_Inr [simp]: "bind (Inr x) f = f x"
  by (simp add: bind_def)

lemma bind_Inl [simp]: "bind (Inl e) f = Inl e"
  by (simp add: bind_def)

subsection \<open>Rounding to a double\<close>

lemma bitlen_pos: "0 < n \<Longrightarrow> bitlen n = Suc (bitlen (n div 2))"
  by (subst bitlen.simps) simp

lemma bitlen_nonpos: "n \<le> 0 \<Longrightarrow> bitlen n = 0"
  by (subst bitlen.simps) simp

lemma bitlen_bounds: "0 < n \<Longrightarrow> 2 ^ (bitlen n - 1) \<le> n \<and> n < 2 ^ bitlen n"
proof (induction n rule: bitlen.induct)
  case (1 n)
  show ?case
  proof (cases "n div 2 = 0")
    case True
    with "1.prems" have "n = 1" by auto
    then show ?thesis by (simp add: bitlen_pos bitlen_nonpos)
  next
    case False
    with "1.prems" have pos: "0 < n div 2" by auto
    with "1.IH" "1.prems"
    have ih: "2 ^ (bitlen (n div 2) - 1) \<le> n div 2" "n div 2 < 2 ^ bitlen (n div 2)" by auto
    from pos have "bitlen (n div 2) = Suc (bitlen (n div 2) - 1)"
      by (simp add: bitlen_pos)
    then have "(2::int) ^ bitlen (n div 2) = 2 * 2 ^ (bitlen (n div 2) - 1)"
      by (metis power_Suc)
    with ih have "2 ^ bitlen (n div 2) \<le> n" "n < 2 * 2 ^ bitlen (n div 2)" by linarith+
    then show ?thesis using "1.prems" by (simp add: bitlen_pos)
  qed
qed

lemma pow2_powi: "pow2 k = 2 powi k"
  by (simp add: pow2_def power_int_def power_one_over inverse_eq_divide)

lemma pow2_pos: "0 < pow2 k"
  by (simp add: pow2_powi)

lemma pow2_Suc: "pow2 (k + 1) = 2 * pow2 k"
  by (simp add: pow2_powi power_int_add)

lemma pow2_mono: "k \<le> l \<Longrightarrow> pow2 k \<le> pow2 l"
  by (simp add: pow2_powi power_int_increasing)

lemma pow2_diff: "pow2 (int m - int n) = 2 ^ m / 2 ^ n"
  by (simp add: pow2_powi power_int_diff)

text \<open>\<open>ilog2\<close> is the binary exponent: the power of two at or below a positive number.\<close>

lemma ilog2_bounds:
  assumes "0 < x"
  shows "pow2 (ilog2 x) \<le> x \<and> x < pow2 (ilog2 x + 1)"
proof -
  obtain a b where q: "quotient_of x = (a, b)" by (cases "quotient_of x")
  then have b: "0 < b" and x: "x = of_int a / of_int b"
    using quotient_of_denom_pos quotient_of_div by auto
  with assms have a: "0 < a" by (simp add: zero_less_divide_iff)
  define k where "k = int (bitlen a) - int (bitlen b)"
  from bitlen_bounds [OF a] bitlen_bounds [OF b]
  have ba: "2 ^ (bitlen a - 1) \<le> a" "a < 2 ^ bitlen a"
    and bb: "2 ^ (bitlen b - 1) \<le> b" "b < 2 ^ bitlen b" by auto
  have la: "bitlen a = Suc (bitlen a - 1)" and lb: "bitlen b = Suc (bitlen b - 1)"
    using a b by (simp_all add: bitlen_pos)
  have "(of_int a :: rat) < 2 ^ bitlen a"
    using ba(2) by (metis of_int_less_iff of_int_numeral of_int_power)
  moreover have "(2 :: rat) ^ (bitlen b - 1) \<le> of_int b"
    using bb(1) by (metis of_int_le_iff of_int_numeral of_int_power)
  ultimately have "x < 2 ^ bitlen a / 2 ^ (bitlen b - 1)"
    unfolding x using b a by (intro frac_less) auto
  also have "\<dots> = 2 * pow2 k"
    unfolding k_def pow2_diff by (subst (2) lb) simp
  finally have up: "x < pow2 (k + 1)" by (simp add: pow2_Suc)
  have "(2 :: rat) ^ (bitlen a - 1) \<le> of_int a"
    using ba(1) by (metis of_int_le_iff of_int_numeral of_int_power)
  moreover have "(of_int b :: rat) < 2 ^ bitlen b"
    using bb(2) by (metis of_int_less_iff of_int_numeral of_int_power)
  ultimately have "2 ^ (bitlen a - 1) / 2 ^ bitlen b < x"
    unfolding x using b a by (intro frac_less2) auto
  moreover have "(2 :: rat) ^ (bitlen a - 1) / 2 ^ bitlen b = pow2 (k - 1)"
  proof -
    have "k - 1 = int (bitlen a - 1) - int (bitlen b)" using la by (simp add: k_def)
    then show ?thesis by (simp only: pow2_diff)
  qed
  ultimately have lo: "pow2 (k - 1) \<le> x" by simp
  have il: "ilog2 x = (if pow2 k \<le> x then k else k - 1)"
    by (simp add: ilog2_def q k_def Let_def)
  show ?thesis
  proof (cases "pow2 k \<le> x")
    case True
    then show ?thesis using up il by simp
  next
    case False
    then show ?thesis using lo il by simp
  qed
qed

lemma ilog2_unique:
  assumes "pow2 k \<le> x" "x < pow2 (k + 1)"
  shows "ilog2 x = k"
proof -
  have "0 < x" using assms(1) pow2_pos [of k] by linarith
  then have b: "pow2 (ilog2 x) \<le> x" "x < pow2 (ilog2 x + 1)" using ilog2_bounds by auto
  have "\<not> ilog2 x + 1 \<le> k"
    using pow2_mono [of "ilog2 x + 1" k] b(2) assms(1) by linarith
  moreover have "\<not> k + 1 \<le> ilog2 x"
    using pow2_mono [of "k + 1" "ilog2 x"] b(1) assms(2) by linarith
  ultimately show ?thesis by linarith
qed

lemma round_double_exponent:
  assumes "pow2 k \<le> x" "x < pow2 (k + 1)"
  shows "round_double x =
     (let q = pow2 (max k (- 1022) - 52);
          r = of_int (round_half_even (x / q)) * q
      in if pow2 1024 \<le> r then None else Some r)"
proof -
  have "0 < x" using assms(1) pow2_pos [of k] by linarith
  then show ?thesis
    by (simp add: round_double_def ilog2_unique [OF assms] Let_def)
qed

lemma floor_rat_numeral:
  "\<lfloor>(numeral a / numeral b :: rat)\<rfloor> = numeral a div numeral b"
  using floor_divide_of_int_eq [of "numeral a" "numeral b", where ?'a = rat] by simp

lemmas round_eval = pow2_def round_half_even_def Let_def floor_rat_numeral

text \<open>The doubles of the numbers in the examples below; the first eight are exact.\<close>

lemma round_double_3: "round_double 3 = Some 3"
  by (subst round_double_exponent [of 1]) (simp_all add: round_eval)

lemma round_double_8: "round_double 8 = Some 8"
  by (subst round_double_exponent [of 3]) (simp_all add: round_eval)

lemma round_double_12: "round_double 12 = Some 12"
  by (subst round_double_exponent [of 3]) (simp_all add: round_eval)

lemma round_double_45: "round_double 45 = Some 45"
  by (subst round_double_exponent [of 5]) (simp_all add: round_eval)

lemma round_double_150: "round_double 150 = Some 150"
  by (subst round_double_exponent [of 7]) (simp_all add: round_eval)

lemma round_double_5000: "round_double 5000 = Some 5000"
  by (subst round_double_exponent [of 12]) (simp_all add: round_eval)

lemma round_double_half: "round_double (1 / 2) = Some (1 / 2)"
  by (subst round_double_exponent [of "- 1"]) (simp_all add: round_eval)

lemma round_double_12_5: "round_double (25 / 2) = Some (25 / 2)"
  by (subst round_double_exponent [of 3]) (simp_all add: round_eval)

lemma round_double_0_49:
  "round_double (49 / 100) = Some (2206763817411543 / 4503599627370496)"
  by (subst round_double_exponent [of "- 2"]) (simp_all add: round_eval)

lemma round_double_5000_01:
  "round_double (500001 / 100) = Some (2748784566998139 / 549755813888)"
  by (subst round_double_exponent [of 12]) (simp_all add: round_eval)

subsection \<open>Parsing the numbers of the examples\<close>

lemmas float_eval = py_float_def parse_float_def strip_chars_def float_space_def ord_def
  parse_decimal_def parse_exponent_def digits_val_def is_digit_def lower_def lower_char_def
  pow10_def Let_def

lemma parse_float_3: "parse_float ''3.0'' = Some (Finite 3)"
  by (simp add: float_eval round_double_3)

lemma parse_float_8: "parse_float ''8.0'' = Some (Finite 8)"
  by (simp add: float_eval round_double_8)

lemma parse_float_12: "parse_float ''12.0'' = Some (Finite 12)"
  by (simp add: float_eval round_double_12)

lemma parse_float_45: "parse_float ''45.0'' = Some (Finite 45)"
  by (simp add: float_eval round_double_45)

lemma parse_float_150: "parse_float ''150'' = Some (Finite 150)"
  by (simp add: float_eval round_double_150)

lemma parse_float_5000: "parse_float ''5000'' = Some (Finite 5000)"
  by (simp add: float_eval round_double_5000)

lemma parse_float_half: "parse_float ''0.5'' = Some (Finite (1 / 2))"
  by (simp add: float_eval round_double_half)

lemma parse_float_12_5_dot: "parse_float ''12.5'' = Some (Finite (25 / 2))"
  by (simp add: float_eval round_double_12_5)

lemma parse_float_12_5_comma: "parse_float ''12,5'' = Some (Finite (25 / 2))"
  by (simp add: float_eval round_double_12_5)

lemma parse_float_0_49:
  "parse_float ''0.49'' = Some (Finite (2206763817411543 / 4503599627370496))"
  by (simp add: float_eval round_double_0_49)

lemma parse_float_5000_01:
  "parse_float ''5000.01'' = Some (Finite (2748784566998139 / 549755813888))"
  by (simp add: float_eval round_double_5000_01)

lemma py_float_malformed: "py_float (replace '','' ''.'' ''1,2,3'') = Inl ValueError"
  by (simp add: float_eval)

lemma parse_float_malformed: "parse_float ''1,2,3'' = None"
  using py_float_malformed by (simp add: parse_float_def)

subsection \<open>The loops of \<open>extract_load_points\<close> never raise\<close>

lemma likely_value_in_range: "v \<noteq> None \<Longrightarrow> likely_value v lo hi = Inr (in_range v lo hi)"
  by (auto simp: likely_value_def in_range_def split: option.splits pyfloat.splits)

lemma keep_likely_filter: "keep_likely lo hi xs = Inr (filter (\<lambda>x. in_range x lo hi) xs)"
proof (induction xs)
  case Nil
  show ?case by simp
next
  case (Cons x xs)
  show ?case
  proof (cases "x = None")
    case True
    then show ?thesis using Cons by (simp add: in_range_def)
  next
    case False
    then show ?thesis using Cons by (auto simp: likely_value_in_range)
  qed
qed

lemma triple_loop_filter:
  "triple_loop cfg p points triples =
     Inr (points @ map (\<lambda>(b, r, c). (cfg, parse_float b, parse_float r, parse_float c, take 220 p))
            (filter (\<lambda>(b, r, c). in_range (parse_float b) 5 200 \<and> in_range (parse_float r) 1 200
                                 \<and> in_range (parse_float c) (1 / 2) 5000) triples))"
proof (induction triples arbitrary: points)
  case Nil
  show ?case by simp
next
  case (Cons t triples)
  obtain b r c where t: "t = (b, r, c)" by (cases t)
  show ?case
  proof (cases "parse_float b = None \<or> parse_float r = None \<or> parse_float c = None")
    case True
    then have "\<not> (in_range (parse_float b) 5 200 \<and> in_range (parse_float r) 1 200
                 \<and> in_range (parse_float c) (1 / 2) 5000)"
      by (auto simp: in_range_def)
    with True show ?thesis unfolding t by (simp add: Cons)
  next
    case False
    then show ?thesis unfolding t
      by (simp add: Cons likely_value_in_range and_also_def Let_def)
  qed
qed

lemma fallback_total:
  "\<exists>new. fallback cfg p points = Inr (points @ new) \<and> length new \<le> 1"
  by (auto simp: fallback_def keep_likely_filter first_def split: list.splits)

lemma load_step_total:
  "\<exists>cfg' new. load_step (cfg, points) part = Inr (cfg', points @ new)"
proof (cases "length (normalise part) < 4")
  case True
  then show ?thesis by (simp add: load_step_def)
next
  case False
  define p where "p = normalise part"
  define c where "c = switch_config cfg p"
  obtain pts where t: "triple_loop c p points (findall3 TRIPLE_RE p) = Inr (points @ pts)"
    using triple_loop_filter by blast
  obtain new where "fallback c p (points @ pts) = Inr ((points @ pts) @ new)"
    using fallback_total by blast
  with False t show ?thesis
    by (simp add: load_step_def Let_def p_def c_def)
qed

lemma load_loop_total:
  "\<exists>cfg' new. load_loop (cfg, points) parts = Inr (cfg', points @ new)"
proof (induction parts arbitrary: cfg points)
  case Nil
  show ?case by simp
next
  case (Cons part parts)
  obtain cfg1 new1 where s: "load_step (cfg, points) part = Inr (cfg1, points @ new1)"
    using load_step_total by blast
  obtain cfg2 new2 where "load_loop (cfg1, points @ new1) parts = Inr (cfg2, (points @ new1) @ new2)"
    using Cons by blast
  with s show ?case by simp
qed

lemma collect_points_total: "\<exists>points. collect_points parts cfg = Inr points"
  using load_loop_total [of cfg "[]" parts] by (auto simp: collect_points_def)

subsection \<open>Deduplication\<close>

lemma dedup_append: "dedup seen unique rows = unique @ dedup seen [] rows"
proof (induction rows arbitrary: seen unique)
  case Nil
  show ?case by simp
next
  case (Cons row rows)
  show ?case
    using Cons [of seen unique] Cons [of "insert (key_of row) seen" "unique @ [row]"]
      Cons [of "insert (key_of row) seen" "[row]"] by simp
qed

lemma dedup_keys_fresh: "key_of ` set (dedup seen [] rows) \<inter> seen = {}"
proof (induction rows arbitrary: seen)
  case Nil
  show ?case by simp
next
  case (Cons row rows)
  show ?case
    using Cons [of seen] Cons [of "insert (key_of row) seen"]
      dedup_append [of "insert (key_of row) seen" "[row]" rows] by auto
qed

lemma dedup_distinct: "distinct (map key_of (dedup seen [] rows))"
proof (induction rows arbitrary: seen)
  case Nil
  show ?case by simp
next
  case (Cons row rows)
  show ?case
    using Cons [of seen] Cons [of "insert (key_of row) seen"]
      dedup_keys_fresh [of "insert (key_of row) seen" rows]
      dedup_append [of "insert (key_of row) seen" "[row]" rows] by auto
qed

lemma dedup_find:
  "find (\<lambda>r. key_of r = k) (dedup seen [] rows) =
     (if k \<in> seen then None else find (\<lambda>r. key_of r = k) rows)"
proof (induction rows arbitrary: seen)
  case Nil
  show ?case by simp
next
  case (Cons row rows)
  show ?case
    using Cons [of seen] Cons [of "insert (key_of row) seen"]
      dedup_append [of "insert (key_of row) seen" "[row]" rows] by auto
qed

section \<open>The example chunks\<close>

text \<open>
  What the patterns find in the chunks used as examples: the normalised chunk, the leading
  code, the triples, the meter numbers and the ton numbers.
\<close>

lemma scan_label:
  "normalise ''MB Hauptausleger configuration'' = ''MB Hauptausleger configuration''"
  "re_match LEADING_CODE_RE ''MB Hauptausleger configuration'' = Some [(1, ''MB'')]"
  "findall3 TRIPLE_RE ''MB Hauptausleger configuration'' = []"
  "findall1 NUMBER_M_RE ''MB Hauptausleger configuration'' = []"
  "findall1 NUMBER_T_RE ''MB Hauptausleger configuration'' = []"
  by code_simp+

lemma scan_row:
  "normalise ''12.0 m 8.0 m 45.0 t lift data'' = ''12.0 m 8.0 m 45.0 t lift data''"
  "re_match LEADING_CODE_RE ''12.0 m 8.0 m 45.0 t lift data'' = None"
  "findall3 TRIPLE_RE ''12.0 m 8.0 m 45.0 t lift data'' = [(''12.0'', ''8.0'', ''45.0'')]"
  "findall1 NUMBER_M_RE ''12.0 m 8.0 m 45.0 t lift data'' = [''12.0'', ''8.0'']"
  "findall1 NUMBER_T_RE ''12.0 m 8.0 m 45.0 t lift data'' = [''45.0'']"
  by code_simp+

lemma scan_plain_row:
  "normalise ''12.0 m 8.0 m 45.0 t'' = ''12.0 m 8.0 m 45.0 t''"
  "re_match LEADING_CODE_RE ''12.0 m 8.0 m 45.0 t'' = None"
  "findall3 TRIPLE_RE ''12.0 m 8.0 m 45.0 t'' = [(''12.0'', ''8.0'', ''45.0'')]"
  "findall1 NUMBER_M_RE ''12.0 m 8.0 m 45.0 t'' = [''12.0'', ''8.0'']"
  "findall1 NUMBER_T_RE ''12.0 m 8.0 m 45.0 t'' = [''45.0'']"
  by code_simp+

lemma scan_short_radius:
  "normalise ''12.0 m 3.0 m 45.0 t'' = ''12.0 m 3.0 m 45.0 t''"
  "re_match LEADING_CODE_RE ''12.0 m 3.0 m 45.0 t'' = None"
  "findall3 TRIPLE_RE ''12.0 m 3.0 m 45.0 t'' = [(''12.0'', ''3.0'', ''45.0'')]"
  "findall1 NUMBER_M_RE ''12.0 m 3.0 m 45.0 t'' = [''12.0'', ''3.0'']"
  "findall1 NUMBER_T_RE ''12.0 m 3.0 m 45.0 t'' = [''45.0'']"
  by code_simp+

lemma scan_two_triples:
  "normalise ''12.0 m 8.0 m 45.0 t 45.0 m 8.0 m 12.0 t'' = ''12.0 m 8.0 m 45.0 t 45.0 m 8.0 m 12.0 t''"
  "re_match LEADING_CODE_RE ''12.0 m 8.0 m 45.0 t 45.0 m 8.0 m 12.0 t'' = None"
  "findall3 TRIPLE_RE ''12.0 m 8.0 m 45.0 t 45.0 m 8.0 m 12.0 t'' =
     [(''12.0'', ''8.0'', ''45.0''), (''45.0'', ''8.0'', ''12.0'')]"
  "findall1 NUMBER_M_RE ''12.0 m 8.0 m 45.0 t 45.0 m 8.0 m 12.0 t'' =
     [''12.0'', ''8.0'', ''45.0'', ''8.0'']"
  "findall1 NUMBER_T_RE ''12.0 m 8.0 m 45.0 t 45.0 m 8.0 m 12.0 t'' = [''45.0'', ''12.0'']"
  by code_simp+

lemma scan_digit_run:
  "normalise ''1150 m 8.0 m 45.0 t'' = ''1150 m 8.0 m 45.0 t''"
  "re_match LEADING_CODE_RE ''1150 m 8.0 m 45.0 t'' = None"
  "findall3 TRIPLE_RE ''1150 m 8.0 m 45.0 t'' = [(''150'', ''8.0'', ''45.0'')]"
  "findall1 NUMBER_M_RE ''1150 m 8.0 m 45.0 t'' = [''150'', ''8.0'']"
  "findall1 NUMBER_T_RE ''1150 m 8.0 m 45.0 t'' = [''45.0'']"
  by code_simp+

lemma scan_digit_run_positions:
  "finditer NUMBER_M_RE ''1150 m 8.0 m 45.0 t'' = [(1, 6, [(1, ''150'')]), (7, 12, [(1, ''8.0'')])]"
  "finditer TRIPLE_RE ''1150 m 8.0 m 45.0 t'' =
     [(1, 19, [(3, ''45.0''), (2, ''8.0''), (1, ''150'')])]"
  by code_simp+

lemma scan_load:
  "normalise ''LOAD boom 12.0 m 8.0 m 45.0 t'' = ''LOAD boom 12.0 m 8.0 m 45.0 t''"
  "re_match LEADING_CODE_RE ''LOAD boom 12.0 m 8.0 m 45.0 t'' = Some [(1, ''LOAD'')]"
  "findall3 TRIPLE_RE ''LOAD boom 12.0 m 8.0 m 45.0 t'' = [(''12.0'', ''8.0'', ''45.0'')]"
  "findall1 NUMBER_M_RE ''LOAD boom 12.0 m 8.0 m 45.0 t'' = [''12.0'', ''8.0'']"
  "findall1 NUMBER_T_RE ''LOAD boom 12.0 m 8.0 m 45.0 t'' = [''45.0'']"
  by code_simp+

lemma scan_ton:
  "normalise ''TON boom 12.0 m 8.0 m 45.0 t'' = ''TON boom 12.0 m 8.0 m 45.0 t''"
  "re_match LEADING_CODE_RE ''TON boom 12.0 m 8.0 m 45.0 t'' = Some [(1, ''TON'')]"
  "findall3 TRIPLE_RE ''TON boom 12.0 m 8.0 m 45.0 t'' = [(''12.0'', ''8.0'', ''45.0'')]"
  "findall1 NUMBER_M_RE ''TON boom 12.0 m 8.0 m 45.0 t'' = [''12.0'', ''8.0'']"
  "findall1 NUMBER_T_RE ''TON boom 12.0 m 8.0 m 45.0 t'' = [''45.0'']"
  by code_simp+

lemma scan_cap_half:
  "normalise ''12.0 m 0.5 t'' = ''12.0 m 0.5 t''"
  "re_match LEADING_CODE_RE ''12.0 m 0.5 t'' = None"
  "findall3 TRIPLE_RE ''12.0 m 0.5 t'' = []"
  "findall1 NUMBER_M_RE ''12.0 m 0.5 t'' = [''12.0'']"
  "findall1 NUMBER_T_RE ''12.0 m 0.5 t'' = [''0.5'']"
  by code_simp+

lemma scan_cap_5000:
  "normalise ''12.0 m 5000 t'' = ''12.0 m 5000 t''"
  "re_match LEADING_CODE_RE ''12.0 m 5000 t'' = None"
  "findall3 TRIPLE_RE ''12.0 m 5000 t'' = []"
  "findall1 NUMBER_M_RE ''12.0 m 5000 t'' = [''12.0'']"
  "findall1 NUMBER_T_RE ''12.0 m 5000 t'' = [''5000'']"
  by code_simp+

lemma scan_cap_0_49:
  "normalise ''12.0 m 0.49 t'' = ''12.0 m 0.49 t''"
  "re_match LEADING_CODE_RE ''12.0 m 0.49 t'' = None"
  "findall3 TRIPLE_RE ''12.0 m 0.49 t'' = []"
  "findall1 NUMBER_M_RE ''12.0 m 0.49 t'' = [''12.0'']"
  "findall1 NUMBER_T_RE ''12.0 m 0.49 t'' = [''0.49'']"
  by code_simp+

lemma scan_cap_5000_01:
  "normalise ''12.0 m 5000.01 t'' = ''12.0 m 5000.01 t''"
  "re_match LEADING_CODE_RE ''12.0 m 5000.01 t'' = None"
  "findall3 TRIPLE_RE ''12.0 m 5000.01 t'' = []"
  "findall1 NUMBER_M_RE ''12.0 m 5000.01 t'' = [''12.0'']"
  "findall1 NUMBER_T_RE ''12.0 m 5000.01 t'' = [''5000.01'']"
  by code_simp+

lemma split_examples:
  "split_candidates ''MB Hauptausleger configuration - 12.0 m 8.0 m 45.0 t lift data'' =
     [''MB Hauptausleger configuration'', ''12.0 m 8.0 m 45.0 t lift data'']"
  "split_candidates ''12.0 m 8.0 m 45.0 t | 12.0 m 8.0 m 45.0 t lift data'' =
     [''12.0 m 8.0 m 45.0 t'', ''12.0 m 8.0 m 45.0 t lift data'']"
  "split_candidates ''1150 m 8.0 m 45.0 t'' = [''1150 m 8.0 m 45.0 t'']"
  "split_candidates ''LOAD boom 12.0 m 8.0 m 45.0 t'' = [''LOAD boom 12.0 m 8.0 m 45.0 t'']"
  "split_candidates ''TON boom 12.0 m 8.0 m 45.0 t'' = [''TON boom 12.0 m 8.0 m 45.0 t'']"
  "split_candidates ''12.0 m 0.5 t'' = [''12.0 m 0.5 t'']"
  "split_candidates ''12.0 m 5000 t'' = [''12.0 m 5000 t'']"
  "split_candidates ''12.0 m 0.49 t'' = [''12.0 m 0.49 t'']"
  "split_candidates ''12.0 m 5000.01 t'' = [''12.0 m 5000.01 t'']"
  "split_candidates [] = [[]]"
  by code_simp+

lemma config_examples:
  "config_step [] ''MB Hauptausleger configuration'' =
     [(''MB'', ''MB Hauptausleger configuration'')]"
  "config_step [] ''12.0 m 8.0 m 45.0 t lift data'' = []"
  "config_step [] ''MB luffing jib variant'' = [(''MB'', ''MB luffing jib variant'')]"
  "config_step [] ''LOAD boom 12.0 m 8.0 m 45.0 t'' = []"
  "config_step [] ''TON boom 12.0 m 8.0 m 45.0 t'' = []"
  "config_step [] [] = []"
  by code_simp+

lemma stop_list_examples:
  "findall1 CONFIG_CODE_RE ''LOAD boom 12.0 m 8.0 m 45.0 t'' = [''LOAD'']"
  "findall1 CONFIG_CODE_RE ''TON boom 12.0 m 8.0 m 45.0 t'' = [''TON'']"
  "first_code [''LOAD''] = None"
  "first_code [''TON''] = None"
  by code_simp+

lemmas step_eval = load_step_def switch_config_def group_def triple_loop_filter fallback_def
  keep_likely_filter first_def in_range_def Let_def

text \<open>What one pass of the loop body does on each example chunk.\<close>

lemma step_label:
  "load_step (cfg, points) ''MB Hauptausleger configuration'' = Inr (''MB'', points)"
  by (simp add: step_eval scan_label)

lemma step_row:
  "load_step (cfg, points) ''12.0 m 8.0 m 45.0 t lift data'' =
     Inr (cfg, points @
       [(cfg, Some (Finite 12), Some (Finite 8), Some (Finite 45), ''12.0 m 8.0 m 45.0 t lift data''),
        (cfg, Some (Finite 12), None, Some (Finite 45), ''12.0 m 8.0 m 45.0 t lift data'')])"
  by (simp add: step_eval scan_row parse_float_12 parse_float_8 parse_float_45)

lemma step_plain_row:
  "load_step (cfg, points) ''12.0 m 8.0 m 45.0 t'' =
     Inr (cfg, points @
       [(cfg, Some (Finite 12), Some (Finite 8), Some (Finite 45), ''12.0 m 8.0 m 45.0 t''),
        (cfg, Some (Finite 12), None, Some (Finite 45), ''12.0 m 8.0 m 45.0 t'')])"
  by (simp add: step_eval scan_plain_row parse_float_12 parse_float_8 parse_float_45)

lemma step_two_triples:
  "load_step (cfg, points) ''12.0 m 8.0 m 45.0 t 45.0 m 8.0 m 12.0 t'' =
     Inr (cfg, points @
       [(cfg, Some (Finite 12), Some (Finite 8), Some (Finite 45),
           ''12.0 m 8.0 m 45.0 t 45.0 m 8.0 m 12.0 t''),
        (cfg, Some (Finite 45), Some (Finite 8), Some (Finite 12),
           ''12.0 m 8.0 m 45.0 t 45.0 m 8.0 m 12.0 t''),
        (cfg, Some (Finite 12), None, Some (Finite 45),
           ''12.0 m 8.0 m 45.0 t 45.0 m 8.0 m 12.0 t'')])"
  by (simp add: step_eval scan_two_triples parse_float_12 parse_float_8 parse_float_45)

lemma step_digit_run:
  "load_step (cfg, points) ''1150 m 8.0 m 45.0 t'' =
     Inr (cfg, points @
       [(cfg, Some (Finite 150), Some (Finite 8), Some (Finite 45), ''1150 m 8.0 m 45.0 t''),
        (cfg, Some (Finite 150), None, Some (Finite 45), ''1150 m 8.0 m 45.0 t'')])"
  by (simp add: step_eval scan_digit_run parse_float_150 parse_float_8 parse_float_45)

lemma step_load:
  "load_step (cfg, points) ''LOAD boom 12.0 m 8.0 m 45.0 t'' =
     Inr (''LOAD'', points @
       [(''LOAD'', Some (Finite 12), Some (Finite 8), Some (Finite 45),
           ''LOAD boom 12.0 m 8.0 m 45.0 t''),
        (''LOAD'', Some (Finite 12), None, Some (Finite 45), ''LOAD boom 12.0 m 8.0 m 45.0 t'')])"
  by (simp add: step_eval scan_load parse_float_12 parse_float_8 parse_float_45)

lemma step_ton:
  "load_step (cfg, points) ''TON boom 12.0 m 8.0 m 45.0 t'' =
     Inr (''TON'', points @
       [(''TON'', Some (Finite 12), Some (Finite 8), Some (Finite 45),
           ''TON boom 12.0 m 8.0 m 45.0 t''),
        (''TON'', Some (Finite 12), None, Some (Finite 45), ''TON boom 12.0 m 8.0 m 45.0 t'')])"
  by (simp add: step_eval scan_ton parse_float_12 parse_float_8 parse_float_45)

lemma step_cap_half:
  "load_step (cfg, points) ''12.0 m 0.5 t'' =
     Inr (cfg, points @ [(cfg, Some (Finite 12), None, Some (Finite (1 / 2)), ''12.0 m 0.5 t'')])"
  by (simp add: step_eval scan_cap_half parse_float_12 parse_float_half)

lemma step_cap_5000:
  "load_step (cfg, points) ''12.0 m 5000 t'' =
     Inr (cfg, points @ [(cfg, Some (Finite 12), None, Some (Finite 5000), ''12.0 m 5000 t'')])"
  by (simp add: step_eval scan_cap_5000 parse_float_12 parse_float_5000)

lemma step_cap_0_49: "load_step (cfg, points) ''12.0 m 0.49 t'' = Inr (cfg, points)"
  by (simp add: step_eval scan_cap_0_49 parse_float_12 parse_float_0_49)

lemma step_cap_5000_01: "load_step (cfg, points) ''12.0 m 5000.01 t'' = Inr (cfg, points)"
  by (simp add: step_eval scan_cap_5000_01 parse_float_12 parse_float_5000_01)

lemmas points_eval = extract_load_points_def load_points_of_parts_def collect_points_def key_of_def

section \<open>The triple pattern and its plausibility ranges\<close>

text \<open>
  Claim C1, as the spec states it, asks the radius of a triple to lie in [5, 200]. The
  program calls \<open>likely_value(radius, 1, 200)\<close>: the chunk \<open>12.0 m 3.0 m 45.0 t\<close> has one
  triple, its radius 3.0 is below 5, and the loop over the triples appends a row for it.
\<close>

theorem triple_radius_below_five_emitted:
  "findall3 TRIPLE_RE ''12.0 m 3.0 m 45.0 t'' = [(''12.0'', ''3.0'', ''45.0'')]
   \<and> parse_float ''3.0'' = Some (Finite 3)
   \<and> \<not> in_range (parse_float ''3.0'') 5 200
   \<and> triple_loop ''UNKNOWN'' ''12.0 m 3.0 m 45.0 t'' []
        (findall3 TRIPLE_RE ''12.0 m 3.0 m 45.0 t'') =
      Inr [(''UNKNOWN'', Some (Finite 12), Some (Finite 3), Some (Finite 45),
            ''12.0 m 3.0 m 45.0 t'')]"
  by (simp add: scan_short_radius triple_loop_filter in_range_def
        parse_float_12 parse_float_3 parse_float_45)

text \<open>
  Claim C1, amended: in the triple pattern each of the three parsed numbers must pass its
  plausibility range, the boom length in [5, 200], the radius in [1, 200] and the capacity in
  [0.5, 5000]. The loop over the triples never raises; every row it appends carries the
  current configuration, three finite values within these ranges and the snippet; and every
  triple whose three values lie within these ranges has its row appended. So a triple with a
  value outside its range emits no row.
\<close>

theorem triple_loop_ranges:
  "\<exists>new. triple_loop cfg p points triples = Inr (points @ new)
     \<and> (\<forall>row \<in> set new. \<exists>b r c.
           row = (cfg, Some (Finite b), Some (Finite r), Some (Finite c), take 220 p)
           \<and> 5 \<le> b \<and> b \<le> 200 \<and> 1 \<le> r \<and> r \<le> 200 \<and> 1 / 2 \<le> c \<and> c \<le> 5000)
     \<and> (\<forall>(bs, rs, cs) \<in> set triples.
           in_range (parse_float bs) 5 200 \<and> in_range (parse_float rs) 1 200
           \<and> in_range (parse_float cs) (1 / 2) 5000
           \<longrightarrow> (cfg, parse_float bs, parse_float rs, parse_float cs, take 220 p) \<in> set new)"
proof -
  define ok where "ok = (\<lambda>(b, r, c). in_range (parse_float b) 5 200
     \<and> in_range (parse_float r) 1 200 \<and> in_range (parse_float c) (1 / 2) 5000)"
  define mk where "mk = (\<lambda>(b, r, c).
     (cfg, parse_float b, parse_float r, parse_float c, take 220 p))"
  define new where "new = map mk (filter ok triples)"
  have eq: "triple_loop cfg p points triples = Inr (points @ new)"
    unfolding new_def mk_def ok_def by (rule triple_loop_filter)
  have rows: "\<exists>b r c. row = (cfg, Some (Finite b), Some (Finite r), Some (Finite c), take 220 p)
           \<and> 5 \<le> b \<and> b \<le> 200 \<and> 1 \<le> r \<and> r \<le> 200 \<and> 1 / 2 \<le> c \<and> c \<le> 5000"
    if "row \<in> set new" for row
  proof -
    from that obtain bs rs cs where t: "ok (bs, rs, cs)" and row: "row = mk (bs, rs, cs)"
      unfolding new_def by auto
    from t obtain b r c where "parse_float bs = Some (Finite b)" "5 \<le> b" "b \<le> 200"
      "parse_float rs = Some (Finite r)" "1 \<le> r" "r \<le> 200"
      "parse_float cs = Some (Finite c)" "1 / 2 \<le> c" "c \<le> 5000"
      unfolding ok_def in_range_def by (auto split: option.splits pyfloat.splits)
    with row show ?thesis unfolding mk_def by simp
  qed
  have emitted: "mk t \<in> set new" if "t \<in> set triples" "ok t" for t
    using that unfolding new_def by auto
  from eq rows emitted show ?thesis
    unfolding ok_def mk_def by (intro exI [of _ new]) fastforce
qed

theorem triple_loop_ranges_witness:
  "\<exists>new. triple_loop ''UNKNOWN'' ''12.0 m 3.0 m 45.0 t'' [] [(''12.0'', ''3.0'', ''45.0'')] = Inr new
     \<and> (''UNKNOWN'', Some (Finite 12), Some (Finite 3), Some (Finite 45), ''12.0 m 3.0 m 45.0 t'')
          \<in> set new"
proof -
  from triple_loop_ranges [of "''UNKNOWN''" "''12.0 m 3.0 m 45.0 t''" "[]"
      "[(''12.0'', ''3.0'', ''45.0'')]"]
  obtain new where
    eq: "triple_loop ''UNKNOWN'' ''12.0 m 3.0 m 45.0 t'' [] [(''12.0'', ''3.0'', ''45.0'')] =
           Inr ([] @ new)"
    and emitted: "\<forall>(bs, rs, cs) \<in> set [(''12.0'', ''3.0'', ''45.0'')].
           in_range (parse_float bs) 5 200 \<and> in_range (parse_float rs) 1 200
           \<and> in_range (parse_float cs) (1 / 2) 5000
           \<longrightarrow> (''UNKNOWN'', parse_float bs, parse_float rs, parse_float cs,
                 take 220 ''12.0 m 3.0 m 45.0 t'') \<in> set new"
    by blast
  from emitted
  have "(''UNKNOWN'', Some (Finite 12), Some (Finite 3), Some (Finite 45), ''12.0 m 3.0 m 45.0 t'')
          \<in> set new"
    by (simp add: in_range_def parse_float_12 parse_float_3 parse_float_45)
  moreover from eq
  have "triple_loop ''UNKNOWN'' ''12.0 m 3.0 m 45.0 t'' [] [(''12.0'', ''3.0'', ''45.0'')] = Inr new"
    by (simp only: append_Nil)
  ultimately show ?thesis by blast
qed

section \<open>How many points one chunk contributes\<close>

text \<open>
  Claim C2, as the spec states it, bounds the points of one chunk by two. The chunk
  \<open>12.0 m 8.0 m 45.0 t 45.0 m 8.0 m 12.0 t\<close> holds two triples; the loop body appends a row
  for each and a third row for the fallback pattern.
\<close>

theorem three_points_from_one_chunk:
  "load_step (''UNKNOWN'', []) ''12.0 m 8.0 m 45.0 t 45.0 m 8.0 m 12.0 t'' =
     Inr (''UNKNOWN'',
       [(''UNKNOWN'', Some (Finite 12), Some (Finite 8), Some (Finite 45),
           ''12.0 m 8.0 m 45.0 t 45.0 m 8.0 m 12.0 t''),
        (''UNKNOWN'', Some (Finite 45), Some (Finite 8), Some (Finite 12),
           ''12.0 m 8.0 m 45.0 t 45.0 m 8.0 m 12.0 t''),
        (''UNKNOWN'', Some (Finite 12), None, Some (Finite 45),
           ''12.0 m 8.0 m 45.0 t 45.0 m 8.0 m 12.0 t'')])
   \<and> \<not> length
       [(''UNKNOWN'', Some (Finite 12), Some (Finite 8), Some (Finite (45 :: rat)),
           ''12.0 m 8.0 m 45.0 t 45.0 m 8.0 m 12.0 t''),
        (''UNKNOWN'', Some (Finite 45), Some (Finite 8), Some (Finite 12),
           ''12.0 m 8.0 m 45.0 t 45.0 m 8.0 m 12.0 t''),
        (''UNKNOWN'', Some (Finite 12), None, Some (Finite 45),
           ''12.0 m 8.0 m 45.0 t 45.0 m 8.0 m 12.0 t'')] \<le> 2"
  using step_two_triples [of "''UNKNOWN''" "[]"] by simp

text \<open>
  Claim C2, amended: for every chunk, the loop body appends, before deduplication, at most
  one point for each match of the triple pattern in the chunk and at most one point for the
  fallback pattern; both patterns may fire on the same chunk, as they do on
  \<open>12.0 m 8.0 m 45.0 t lift data\<close>, which contributes two points.
\<close>

theorem load_step_point_count:
  "(\<exists>cfg' new. load_step (cfg, points) part = Inr (cfg', points @ new)
       \<and> length new \<le> length (findall3 TRIPLE_RE (normalise part)) + 1)
   \<and> load_step (''UNKNOWN'', []) ''12.0 m 8.0 m 45.0 t lift data'' =
       Inr (''UNKNOWN'',
         [(''UNKNOWN'', Some (Finite 12), Some (Finite 8), Some (Finite 45),
             ''12.0 m 8.0 m 45.0 t lift data''),
          (''UNKNOWN'', Some (Finite 12), None, Some (Finite 45),
             ''12.0 m 8.0 m 45.0 t lift data'')])"
proof
  show "\<exists>cfg' new. load_step (cfg, points) part = Inr (cfg', points @ new)
       \<and> length new \<le> length (findall3 TRIPLE_RE (normalise part)) + 1"
  proof (cases "length (normalise part) < 4")
    case True
    then have "load_step (cfg, points) part = Inr (cfg, points @ [])"
      by (simp add: load_step_def)
    then show ?thesis by (intro exI [of _ cfg] exI [of _ "[]"]) simp
  next
    case False
    define p where "p = normalise part"
    define c where "c = switch_config cfg p"
    define ok where "ok = (\<lambda>(b, r, c). in_range (parse_float b) 5 200
       \<and> in_range (parse_float r) 1 200 \<and> in_range (parse_float c) (1 / 2) 5000)"
    define pts where "pts = map (\<lambda>(b, r, ca). (c, parse_float b, parse_float r, parse_float ca, take 220 p))
            (filter ok (findall3 TRIPLE_RE p))"
    have t: "triple_loop c p points (findall3 TRIPLE_RE p) = Inr (points @ pts)"
      unfolding pts_def ok_def by (rule triple_loop_filter)
    have len: "length pts \<le> length (findall3 TRIPLE_RE p)"
      unfolding pts_def by simp
    obtain new where f: "fallback c p (points @ pts) = Inr ((points @ pts) @ new)"
      and one: "length new \<le> 1"
      using fallback_total by blast
    from False t f have "load_step (cfg, points) part = Inr (c, points @ (pts @ new))"
      by (simp add: load_step_def Let_def p_def c_def)
    moreover from len one have "length (pts @ new) \<le> length (findall3 TRIPLE_RE p) + 1"
      by simp
    ultimately show ?thesis unfolding p_def by blast
  qed
next
  show "load_step (''UNKNOWN'', []) ''12.0 m 8.0 m 45.0 t lift data'' =
       Inr (''UNKNOWN'',
         [(''UNKNOWN'', Some (Finite 12), Some (Finite 8), Some (Finite 45),
             ''12.0 m 8.0 m 45.0 t lift data''),
          (''UNKNOWN'', Some (Finite 12), None, Some (Finite 45),
             ''12.0 m 8.0 m 45.0 t lift data'')])"
    using step_row [of "''UNKNOWN''" "[]"] by simp
qed

section \<open>Deduplication of the load points\<close>

text \<open>
  Every collected row holds a boom length and a capacity within their ranges, and a radius
  that is absent or within its range. In particular no value is a NaN, so that the equality
  of keys used here is the equality Python's set applies to them.
\<close>

lemma fallback_rows:
  "\<exists>new. fallback cfg p points = Inr (points @ new)
     \<and> (\<forall>row \<in> set new. \<exists>m t. row = (cfg, m, None, t, take 220 p)
           \<and> in_range m 5 200 \<and> in_range t (1 / 2) 5000)"
proof -
  define ms where "ms = filter (\<lambda>x. in_range x 5 200) (map parse_float (findall1 NUMBER_M_RE p))"
  define ts where "ts = filter (\<lambda>x. in_range x (1 / 2) 5000) (map parse_float (findall1 NUMBER_T_RE p))"
  show ?thesis
  proof (cases "ms \<noteq> [] \<and> ts \<noteq> []")
    case False
    then have "fallback cfg p points = Inr (points @ [])"
      by (auto simp: fallback_def keep_likely_filter ms_def ts_def)
    then show ?thesis by (intro exI [of _ "[]"]) simp
  next
    case True
    then obtain m ms' t ts' where c: "ms = m # ms'" "ts = t # ts'"
      by (cases ms; cases ts) auto
    then have "m \<in> set ms" "t \<in> set ts" by simp_all
    then have r: "in_range m 5 200" "in_range t (1 / 2) 5000"
      by (simp_all add: ms_def ts_def)
    from c have "fallback cfg p points = Inr (points @ [(cfg, m, None, t, take 220 p)])"
      by (simp add: fallback_def keep_likely_filter first_def ms_def [symmetric] ts_def [symmetric])
    with r show ?thesis by (intro exI [of _ "[(cfg, m, None, t, take 220 p)]"]) simp
  qed
qed

lemma load_step_rows:
  assumes "\<forall>(code, boom, radius, cap, snippet) \<in> set points.
             in_range boom 5 200 \<and> (radius = None \<or> in_range radius 1 200)
             \<and> in_range cap (1 / 2) 5000"
    and "load_step (cfg, points) part = Inr (cfg', out)"
  shows "\<forall>(code, boom, radius, cap, snippet) \<in> set out.
             in_range boom 5 200 \<and> (radius = None \<or> in_range radius 1 200)
             \<and> in_range cap (1 / 2) 5000"
proof (cases "length (normalise part) < 4")
  case True
  with assms show ?thesis by (simp add: load_step_def)
next
  case False
  define p where "p = normalise part"
  define c where "c = switch_config cfg p"
  define pts where "pts = map (\<lambda>(b, r, ca). (c, parse_float b, parse_float r, parse_float ca, take 220 p))
            (filter (\<lambda>(b, r, c). in_range (parse_float b) 5 200 \<and> in_range (parse_float r) 1 200
                                 \<and> in_range (parse_float c) (1 / 2) 5000) (findall3 TRIPLE_RE p))"
  have t: "triple_loop c p points (findall3 TRIPLE_RE p) = Inr (points @ pts)"
    unfolding pts_def by (rule triple_loop_filter)
  obtain new where f: "fallback c p (points @ pts) = Inr ((points @ pts) @ new)"
    and rows: "\<forall>row \<in> set new. \<exists>m t. row = (c, m, None, t, take 220 p)
           \<and> in_range m 5 200 \<and> in_range t (1 / 2) 5000"
    using fallback_rows by blast
  from False t f assms(2) have out: "out = points @ pts @ new"
    by (simp add: load_step_def Let_def p_def c_def)
  have "\<forall>(code, boom, radius, cap, snippet) \<in> set pts.
             in_range boom 5 200 \<and> (radius = None \<or> in_range radius 1 200)
             \<and> in_range cap (1 / 2) 5000"
    unfolding pts_def by auto
  moreover from rows have "\<forall>(code, boom, radius, cap, snippet) \<in> set new.
             in_range boom 5 200 \<and> (radius = None \<or> in_range radius 1 200)
             \<and> in_range cap (1 / 2) 5000"
    by fastforce
  ultimately show ?thesis using assms(1) unfolding out by auto
qed

lemma load_loop_rows:
  "\<forall>(code, boom, radius, cap, snippet) \<in> set points.
       in_range boom 5 200 \<and> (radius = None \<or> in_range radius 1 200) \<and> in_range cap (1 / 2) 5000
   \<Longrightarrow> load_loop (cfg, points) parts = Inr (cfg', out)
   \<Longrightarrow> \<forall>(code, boom, radius, cap, snippet) \<in> set out.
       in_range boom 5 200 \<and> (radius = None \<or> in_range radius 1 200) \<and> in_range cap (1 / 2) 5000"
proof (induction parts arbitrary: cfg points)
  case Nil
  then show ?case by simp
next
  case (Cons part parts)
  obtain cfg1 new1 where s: "load_step (cfg, points) part = Inr (cfg1, points @ new1)"
    using load_step_total by blast
  from load_step_rows [OF Cons.prems(1) s]
  have "\<forall>(code, boom, radius, cap, snippet) \<in> set (points @ new1).
       in_range boom 5 200 \<and> (radius = None \<or> in_range radius 1 200) \<and> in_range cap (1 / 2) 5000" .
  moreover from Cons.prems(2) s have "load_loop (cfg1, points @ new1) parts = Inr (cfg', out)"
    by simp
  ultimately show ?case by (rule Cons.IH)
qed

lemma collected_rows_plausible:
  assumes "collect_points parts cfg = Inr points"
    and "(code, boom, radius, cap, snippet) \<in> set points"
  shows "in_range boom 5 200 \<and> (radius = None \<or> in_range radius 1 200)
         \<and> in_range cap (1 / 2) 5000"
proof -
  obtain cfg' out where l: "load_loop (cfg, []) parts = Inr (cfg', [] @ out)"
    using load_loop_total by blast
  with assms(1) have "out = points" by (simp add: collect_points_def)
  with l load_loop_rows [of "[]" cfg parts cfg' points] assms(2) show ?thesis
    by fastforce
qed

lemma in_range_not_NaN: "in_range v lo hi \<Longrightarrow> v \<noteq> Some NaN \<and> v \<noteq> None"
  by (cases v) (auto simp: in_range_def)

text \<open>
  Claim C4: for every input text the extractor returns a list in which no two rows have the
  same key (configuration code, boom length, radius, capacity), and for every key the row of
  the result with that key is the first row with that key among the points collected from the
  chunks: a tuple produced twice appears once, with the snippet of its earlier occurrence.
\<close>

theorem extract_load_points_deduplicated:
  "\<exists>points out.
      collect_points (split_candidates text) default_config = Inr points
    \<and> extract_load_points text default_config = Inr out
    \<and> distinct (map key_of out)
    \<and> (\<forall>k. find (\<lambda>row. key_of row = k) out = find (\<lambda>row. key_of row = k) points)"
proof -
  obtain points where c: "collect_points (split_candidates text) default_config = Inr points"
    using collect_points_total by blast
  then have "extract_load_points text default_config = Inr (dedup {} [] points)"
    by (simp add: extract_load_points_def load_points_of_parts_def)
  with c show ?thesis
    using dedup_distinct [of "{}" points] dedup_find [of _ "{}" points] by auto
qed

text \<open>
  An instance: two chunks that produce the same two tuples; the rows of the result carry the
  snippet of the first chunk.
\<close>

lemma duplicate_tuples_example:
  "extract_load_points ''12.0 m 8.0 m 45.0 t | 12.0 m 8.0 m 45.0 t lift data'' ''UNKNOWN'' =
     Inr [(''UNKNOWN'', Some (Finite 12), Some (Finite 8), Some (Finite 45), ''12.0 m 8.0 m 45.0 t''),
          (''UNKNOWN'', Some (Finite 12), None, Some (Finite 45), ''12.0 m 8.0 m 45.0 t'')]"
  by (simp add: points_eval split_examples step_plain_row step_row)

section \<open>The end-to-end scenario\<close>

text \<open>
  Claim C5: on the chunk sequence \<open>MB Hauptausleger configuration\<close>,
  \<open>12.0 m 8.0 m 45.0 t lift data\<close> the configuration mapping is
  \<open>MB \<mapsto> MB Hauptausleger configuration\<close> and the load points hold the row
  (MB, 12.0, 8.0, 45.0, \<open>12.0 m 8.0 m 45.0 t lift data\<close>). The list of load points is given
  in full: the row of the triple pattern is followed by the row of the fallback pattern on the
  same chunk, with no radius. The same holds for a text that splits into these two chunks.
\<close>

theorem end_to_end_scenario:
  "configurations_of_parts
      [''MB Hauptausleger configuration'', ''12.0 m 8.0 m 45.0 t lift data''] =
     [(''MB'', ''MB Hauptausleger configuration'')]
   \<and> load_points_of_parts
      [''MB Hauptausleger configuration'', ''12.0 m 8.0 m 45.0 t lift data''] ''UNKNOWN'' =
     Inr [(''MB'', Some (Finite 12), Some (Finite 8), Some (Finite 45),
             ''12.0 m 8.0 m 45.0 t lift data''),
          (''MB'', Some (Finite 12), None, Some (Finite 45), ''12.0 m 8.0 m 45.0 t lift data'')]
   \<and> split_candidates ''MB Hauptausleger configuration - 12.0 m 8.0 m 45.0 t lift data'' =
     [''MB Hauptausleger configuration'', ''12.0 m 8.0 m 45.0 t lift data'']
   \<and> extract_configurations ''MB Hauptausleger configuration - 12.0 m 8.0 m 45.0 t lift data'' =
     [(''MB'', ''MB Hauptausleger configuration'')]
   \<and> extract_load_points ''MB Hauptausleger configuration - 12.0 m 8.0 m 45.0 t lift data''
        ''UNKNOWN'' =
     Inr [(''MB'', Some (Finite 12), Some (Finite 8), Some (Finite 45),
             ''12.0 m 8.0 m 45.0 t lift data''),
          (''MB'', Some (Finite 12), None, Some (Finite 45), ''12.0 m 8.0 m 45.0 t lift data'')]"
proof -
  have configs: "configurations_of_parts
      [''MB Hauptausleger configuration'', ''12.0 m 8.0 m 45.0 t lift data''] =
     [(''MB'', ''MB Hauptausleger configuration'')]"
    by code_simp
  have points: "load_points_of_parts
      [''MB Hauptausleger configuration'', ''12.0 m 8.0 m 45.0 t lift data''] ''UNKNOWN'' =
     Inr [(''MB'', Some (Finite 12), Some (Finite 8), Some (Finite 45),
             ''12.0 m 8.0 m 45.0 t lift data''),
          (''MB'', Some (Finite 12), None, Some (Finite 45), ''12.0 m 8.0 m 45.0 t lift data'')]"
    by (simp add: points_eval step_label step_row)
  from configs points show ?thesis
    by (simp only: extract_configurations_def extract_load_points_def split_examples simp_thms)
qed

section \<open>The capacity bounds\<close>

text \<open>
  Claim C7: the capacity bounds are inclusive. \<open>likely_value\<close> with the bounds 0.5 and 5000
  accepts exactly the finite values from 0.5 to 5000; it accepts the floats 0.5 and 5000 and
  rejects the floats 0.49 and 5000.01. A chunk with the capacity 0.5 or 5000 yields a load
  point, a chunk with the capacity 0.49 or 5000.01 yields none.
\<close>

theorem capacity_bounds_inclusive:
  "likely_value (Some (Finite x)) (1 / 2) 5000 = Inr (1 / 2 \<le> x \<and> x \<le> 5000)
   \<and> parse_float ''0.5'' = Some (Finite (1 / 2))
   \<and> parse_float ''5000'' = Some (Finite 5000)
   \<and> likely_value (parse_float ''0.5'') (1 / 2) 5000 = Inr True
   \<and> likely_value (parse_float ''5000'') (1 / 2) 5000 = Inr True
   \<and> likely_value (parse_float ''0.49'') (1 / 2) 5000 = Inr False
   \<and> likely_value (parse_float ''5000.01'') (1 / 2) 5000 = Inr False
   \<and> extract_load_points ''12.0 m 0.5 t'' ''UNKNOWN'' =
       Inr [(''UNKNOWN'', Some (Finite 12), None, Some (Finite (1 / 2)), ''12.0 m 0.5 t'')]
   \<and> extract_load_points ''12.0 m 5000 t'' ''UNKNOWN'' =
       Inr [(''UNKNOWN'', Some (Finite 12), None, Some (Finite 5000), ''12.0 m 5000 t'')]
   \<and> extract_load_points ''12.0 m 0.49 t'' ''UNKNOWN'' = Inr []
   \<and> extract_load_points ''12.0 m 5000.01 t'' ''UNKNOWN'' = Inr []"
  by (simp add: likely_value_def parse_float_half parse_float_5000 parse_float_0_49
        parse_float_5000_01 points_eval split_examples step_cap_half step_cap_5000
        step_cap_0_49 step_cap_5000_01)

section \<open>Digit runs\<close>

text \<open>
  Claim C10: the numeric patterns are not anchored on the left. In the text
  \<open>1150 m 8.0 m 45.0 t\<close> the meter pattern and the triple pattern both match from index 1,
  inside the digit run \<open>1150\<close>, and read \<open>150\<close>; the extractor returns load points whose
  boom length is 150.0, a number that stands in the text only as the end of \<open>1150\<close>.
\<close>

theorem digit_run_suffix_matched:
  "finditer NUMBER_M_RE ''1150 m 8.0 m 45.0 t'' =
     [(1, 6, [(1, ''150'')]), (7, 12, [(1, ''8.0'')])]
   \<and> finditer TRIPLE_RE ''1150 m 8.0 m 45.0 t'' =
     [(1, 19, [(3, ''45.0''), (2, ''8.0''), (1, ''150'')])]
   \<and> findall1 NUMBER_M_RE ''1150 m 8.0 m 45.0 t'' = [''150'', ''8.0'']
   \<and> findall3 TRIPLE_RE ''1150 m 8.0 m 45.0 t'' = [(''150'', ''8.0'', ''45.0'')]
   \<and> parse_float ''150'' = Some (Finite 150)
   \<and> extract_load_points ''1150 m 8.0 m 45.0 t'' ''UNKNOWN'' =
       Inr [(''UNKNOWN'', Some (Finite 150), Some (Finite 8), Some (Finite 45),
               ''1150 m 8.0 m 45.0 t''),
            (''UNKNOWN'', Some (Finite 150), None, Some (Finite 45), ''1150 m 8.0 m 45.0 t'')]"
  by (simp add: scan_digit_run scan_digit_run_positions parse_float_150 points_eval
        split_examples step_digit_run)

section \<open>Configuration precedence\<close>

text \<open>
  What a chunk yields on its own is \<open>config_step [] part\<close>: nothing, or one code with the
  chunk cut to 220 characters. The loop body adds that entry to \<open>configs\<close> unless the code
  is already a key.
\<close>

lemma config_step_cases:
  "config_step configs part =
     (case config_step [] part of
        [] \<Rightarrow> configs
      | (code, d) # rest \<Rightarrow>
          if map_of configs code = None then configs @ [(code, d)] else configs)"
  by (simp add: config_step_def Let_def split: option.splits)

lemma config_step_shape:
  "config_step [] part = [] \<or> (\<exists>code. config_step [] part = [(code, take 220 (normalise part))])"
  by (auto simp: config_step_def Let_def split: option.splits)

lemma config_step_keeps:
  "map_of configs code = Some d \<Longrightarrow> map_of (config_step configs part) code = Some d"
  by (subst config_step_cases) (auto simp: map_add_Some_iff split: list.splits)

lemma foldl_config_step_keeps:
  "map_of configs code = Some d \<Longrightarrow> map_of (foldl config_step configs parts) code = Some d"
  by (induction parts arbitrary: configs) (simp_all add: config_step_keeps)

lemma config_step_adds:
  "config_step [] part = [(code, d)] \<Longrightarrow> map_of configs code = None
     \<Longrightarrow> map_of (config_step configs part) code = Some d"
  by (subst config_step_cases) (simp add: map_add_Some_iff)

lemma config_step_other:
  assumes "\<forall>d. config_step [] part \<noteq> [(code, d)]" and "map_of configs code = None"
  shows "map_of (config_step configs part) code = None"
proof -
  from config_step_shape [of part] assms(1)
  have "config_step [] part = [] \<or> (\<exists>c d. c \<noteq> code \<and> config_step [] part = [(c, d)])"
    by auto
  with assms(2) show ?thesis
    by (subst config_step_cases) (auto simp: map_add_def)
qed

lemma first_yield_is_stored:
  "i < length parts \<Longrightarrow> config_step [] (parts ! i) = [(code, d)]
     \<Longrightarrow> \<forall>k<i. \<forall>d'. config_step [] (parts ! k) \<noteq> [(code, d')]
     \<Longrightarrow> map_of configs code = None
     \<Longrightarrow> map_of (foldl config_step configs parts) code = Some d"
proof (induction parts arbitrary: configs i)
  case Nil
  then show ?case by simp
next
  case (Cons part parts)
  show ?case
  proof (cases i)
    case 0
    with Cons.prems have "map_of (config_step configs part) code = Some d"
      by (simp add: config_step_adds)
    then show ?thesis by (simp add: foldl_config_step_keeps)
  next
    case (Suc i')
    from Cons.prems(3) Suc have "\<forall>d'. config_step [] part \<noteq> [(code, d')]"
      by force
    with Cons.prems(4) have none: "map_of (config_step configs part) code = None"
      by (simp add: config_step_other)
    from Cons.prems(3) Suc
    have "\<forall>k<i'. \<forall>d'. config_step [] (parts ! k) \<noteq> [(code, d')]"
      by force
    with Cons.IH [of i' "config_step configs part"] Cons.prems(1,2) Suc none
    show ?thesis by simp
  qed
qed

text \<open>
  Claim C6: when a chunk at index \<open>j\<close> yields a configuration code, the description stored
  for that code is the one of the first chunk that yields the code, at some index \<open>i \<le> j\<close>:
  that chunk after normalisation, cut to 220 characters. And a code that is already recorded
  keeps its description whatever chunk comes later.
\<close>

theorem configuration_first_chunk_wins:
  assumes "j < length parts" and "config_step [] (parts ! j) = [(code, dj)]"
  shows "(\<exists>i d. i \<le> j \<and> config_step [] (parts ! i) = [(code, d)]
            \<and> d = take 220 (normalise (parts ! i))
            \<and> (\<forall>k<i. \<forall>d'. config_step [] (parts ! k) \<noteq> [(code, d')])
            \<and> map_of (configurations_of_parts parts) code = Some d)
       \<and> (\<forall>configs d part. map_of configs code = Some d
            \<longrightarrow> map_of (config_step configs part) code = Some d)"
proof
  define P where "P = (\<lambda>k. \<exists>d. config_step [] (parts ! k) = [(code, d)])"
  define i where "i = (LEAST k. P k)"
  have "P j" using assms(2) by (auto simp: P_def)
  then have Pi: "P i" and le: "i \<le> j" and least: "\<forall>k<i. \<not> P k"
    unfolding i_def by (auto intro: LeastI Least_le dest: not_less_Least)
  from Pi obtain d where d: "config_step [] (parts ! i) = [(code, d)]"
    by (auto simp: P_def)
  with config_step_shape [of "parts ! i"] have cut: "d = take 220 (normalise (parts ! i))"
    by auto
  from least have before: "\<forall>k<i. \<forall>d'. config_step [] (parts ! k) \<noteq> [(code, d')]"
    by (auto simp: P_def)
  from le assms(1) have "i < length parts" by simp
  from first_yield_is_stored [OF this d before, of "[]"]
  have "map_of (configurations_of_parts parts) code = Some d"
    by (simp add: configurations_of_parts_def)
  with le d cut before
  show "\<exists>i d. i \<le> j \<and> config_step [] (parts ! i) = [(code, d)]
            \<and> d = take 220 (normalise (parts ! i))
            \<and> (\<forall>k<i. \<forall>d'. config_step [] (parts ! k) \<noteq> [(code, d')])
            \<and> map_of (configurations_of_parts parts) code = Some d"
    by blast
next
  show "\<forall>configs d part. map_of configs code = Some d
            \<longrightarrow> map_of (config_step configs part) code = Some d"
    by (simp add: config_step_keeps)
qed

text \<open>
  The instance of the spec: chunk 0 and chunk 5 both yield \<open>MB\<close>; the stored description is
  that of chunk 0.
\<close>

theorem configuration_first_chunk_wins_witness:
  "5 < length [''MB Hauptausleger configuration'', ''12.0 m 8.0 m 45.0 t lift data'',
       ''12.0 m 8.0 m 45.0 t lift data'', ''12.0 m 8.0 m 45.0 t lift data'',
       ''12.0 m 8.0 m 45.0 t lift data'', ''MB luffing jib variant'']
   \<and> config_step [] ([''MB Hauptausleger configuration'', ''12.0 m 8.0 m 45.0 t lift data'',
       ''12.0 m 8.0 m 45.0 t lift data'', ''12.0 m 8.0 m 45.0 t lift data'',
       ''12.0 m 8.0 m 45.0 t lift data'', ''MB luffing jib variant''] ! 5) =
       [(''MB'', ''MB luffing jib variant'')]
   \<and> map_of (configurations_of_parts
       [''MB Hauptausleger configuration'', ''12.0 m 8.0 m 45.0 t lift data'',
        ''12.0 m 8.0 m 45.0 t lift data'', ''12.0 m 8.0 m 45.0 t lift data'',
        ''12.0 m 8.0 m 45.0 t lift data'', ''MB luffing jib variant'']) ''MB'' =
       Some ''MB Hauptausleger configuration''"
proof -
  define parts where "parts =
      [''MB Hauptausleger configuration'', ''12.0 m 8.0 m 45.0 t lift data'',
       ''12.0 m 8.0 m 45.0 t lift data'', ''12.0 m 8.0 m 45.0 t lift data'',
       ''12.0 m 8.0 m 45.0 t lift data'', ''MB luffing jib variant'']"
  have len: "5 < length parts" by (simp add: parts_def)
  have last: "config_step [] (parts ! 5) = [(''MB'', ''MB luffing jib variant'')]"
    by (simp add: parts_def config_examples)
  have first: "config_step [] (parts ! 0) = [(''MB'', ''MB Hauptausleger configuration'')]"
    by (simp add: parts_def config_examples)
  from configuration_first_chunk_wins [OF len last]
  obtain i d where i: "config_step [] (parts ! i) = [(''MB'', d)]"
    and least: "\<forall>k<i. \<forall>d'. config_step [] (parts ! k) \<noteq> [(''MB'', d')]"
    and stored: "map_of (configurations_of_parts parts) ''MB'' = Some d"
    by blast
  from least first have "i = 0" by (cases i) auto
  with i first have "d = ''MB Hauptausleger configuration''" by simp
  with len last stored show ?thesis unfolding parts_def by simp
qed

section \<open>Parsing numbers\<close>

lemma replace_comma:
  "replace '','' ''.'' s = map (\<lambda>c. if c = CHR '','' then CHR ''.'' else c) s"
  by (induction s) auto

text \<open>
  Claim C8: \<open>parse_float\<close> reads \<open>12,5\<close> and \<open>12.5\<close> as the same float 12.5, and more
  generally reads a string as it reads the string with every comma turned into a dot.
  Whenever \<open>float\<close> raises on the normalised string the result is \<open>None\<close>, there is no
  exception. In the loop over the triples a triple with a number that parsed to \<open>None\<close> is
  skipped and the loop goes on with the next triple, and the fallback pattern drops a
  \<open>None\<close> from its candidates.
\<close>

theorem parse_float_separators_and_failures:
  "parse_float ''12,5'' = Some (Finite (25 / 2))
   \<and> parse_float ''12.5'' = Some (Finite (25 / 2))
   \<and> (\<forall>v. parse_float (replace '','' ''.'' v) = parse_float v)
   \<and> (\<forall>v e. py_float (replace '','' ''.'' v) = Inl e \<longrightarrow> parse_float v = None)
   \<and> (\<forall>cfg p points bs rs cs rest.
         parse_float bs = None \<or> parse_float rs = None \<or> parse_float cs = None
         \<longrightarrow> triple_loop cfg p points ((bs, rs, cs) # rest) = triple_loop cfg p points rest)
   \<and> (\<forall>lo hi xs. keep_likely lo hi (None # xs) = keep_likely lo hi xs)"
proof -
  have idem: "parse_float (replace '','' ''.'' v) = parse_float v" for v
    by (simp add: parse_float_def replace_comma o_def if_distrib cong: if_cong)
  have fail: "parse_float v = None" if "py_float (replace '','' ''.'' v) = Inl e" for v e
    using that by (simp add: parse_float_def)
  have skip: "triple_loop cfg p points ((bs, rs, cs) # rest) = triple_loop cfg p points rest"
    if "parse_float bs = None \<or> parse_float rs = None \<or> parse_float cs = None"
    for cfg p points bs rs cs rest
    using that by auto
  have drop: "keep_likely lo hi (None # xs) = keep_likely lo hi xs" for lo hi xs
  proof (cases "keep_likely lo hi xs")
    case (Inl e)
    then show ?thesis by simp
  next
    case (Inr ys)
    then show ?thesis by simp
  qed
  from idem fail skip drop show ?thesis
    by (simp only: parse_float_12_5_comma parse_float_12_5_dot) blast
qed

theorem parse_float_separators_and_failures_witness:
  "py_float (replace '','' ''.'' ''1,2,3'') = Inl ValueError
   \<and> parse_float ''1,2,3'' = None
   \<and> triple_loop ''UNKNOWN'' ''p'' [] [(''1,2,3'', ''8.0'', ''45.0''), (''12.0'', ''8.0'', ''45.0'')] =
       triple_loop ''UNKNOWN'' ''p'' [] [(''12.0'', ''8.0'', ''45.0'')]
   \<and> triple_loop ''UNKNOWN'' ''p'' [] [(''12.0'', ''8.0'', ''45.0'')] =
       Inr [(''UNKNOWN'', Some (Finite 12), Some (Finite 8), Some (Finite 45), ''p'')]"
proof -
  note claim = parse_float_separators_and_failures
  from claim py_float_malformed have none: "parse_float ''1,2,3'' = None"
    by blast
  with claim have "triple_loop ''UNKNOWN'' ''p'' []
        ((''1,2,3'', ''8.0'', ''45.0'') # [(''12.0'', ''8.0'', ''45.0'')]) =
       triple_loop ''UNKNOWN'' ''p'' [] [(''12.0'', ''8.0'', ''45.0'')]"
    by blast
  moreover have "triple_loop ''UNKNOWN'' ''p'' [] [(''12.0'', ''8.0'', ''45.0'')] =
       Inr [(''UNKNOWN'', Some (Finite 12), Some (Finite 8), Some (Finite 45), ''p'')]"
    by (simp add: triple_loop_filter in_range_def parse_float_12 parse_float_8 parse_float_45)
  ultimately show ?thesis using none py_float_malformed by simp
qed

section \<open>The configuration switch\<close>

lemma scan_no_hint:
  "normalise ''XY 12.0 m 8.0 m 45.0 t'' = ''XY 12.0 m 8.0 m 45.0 t''"
  "re_match LEADING_CODE_RE ''XY 12.0 m 8.0 m 45.0 t'' = Some [(1, ''XY'')]"
  "findall3 TRIPLE_RE ''XY 12.0 m 8.0 m 45.0 t'' = [(''12.0'', ''8.0'', ''45.0'')]"
  "findall1 NUMBER_M_RE ''XY 12.0 m 8.0 m 45.0 t'' = [''12.0'', ''8.0'']"
  "findall1 NUMBER_T_RE ''XY 12.0 m 8.0 m 45.0 t'' = [''45.0'']"
  "split_candidates ''XY 12.0 m 8.0 m 45.0 t'' = [''XY 12.0 m 8.0 m 45.0 t'']"
  "config_step [] ''XY 12.0 m 8.0 m 45.0 t'' = []"
  "list_ex (\<lambda>h. contains h (lower ''XY 12.0 m 8.0 m 45.0 t'')) CONFIG_HINTS = False"
  by code_simp+

lemma step_no_hint:
  "load_step (cfg, points) ''XY 12.0 m 8.0 m 45.0 t'' =
     Inr (''XY'', points @
       [(''XY'', Some (Finite 12), Some (Finite 8), Some (Finite 45), ''XY 12.0 m 8.0 m 45.0 t''),
        (''XY'', Some (Finite 12), None, Some (Finite 45), ''XY 12.0 m 8.0 m 45.0 t'')])"
  by (simp add: step_eval scan_no_hint parse_float_12 parse_float_8 parse_float_45)

text \<open>
  Claim C9: the configuration switch applies neither the hint filter nor the stop list. For
  every chunk of at least 4 characters (after normalisation) on which the anchored code
  pattern matches, the loop body sets the current configuration to the matched token,
  whatever the token and the rest of the chunk are. \<open>LOAD\<close> and \<open>TON\<close> are on the stop
  list and \<open>XY 12.0 m 8.0 m 45.0 t\<close> holds no hint, yet each of these chunks switches the
  configuration. On each of the three texts the load points carry a code for which
  \<open>extract_configurations\<close> records nothing.
\<close>

theorem config_switch_unfiltered:
  "(\<forall>cfg points part caps.
       \<not> length (normalise part) < 4 \<and> re_match LEADING_CODE_RE (normalise part) = Some caps
       \<longrightarrow> (\<exists>new. load_step (cfg, points) part = Inr (group caps 1, points @ new)))
   \<and> ''LOAD'' \<in> set STOP_CODES \<and> ''TON'' \<in> set STOP_CODES
   \<and> list_ex (\<lambda>h. contains h (lower ''XY 12.0 m 8.0 m 45.0 t'')) CONFIG_HINTS = False
   \<and> extract_load_points ''LOAD boom 12.0 m 8.0 m 45.0 t'' ''UNKNOWN'' =
       Inr [(''LOAD'', Some (Finite 12), Some (Finite 8), Some (Finite 45),
               ''LOAD boom 12.0 m 8.0 m 45.0 t''),
            (''LOAD'', Some (Finite 12), None, Some (Finite 45),
               ''LOAD boom 12.0 m 8.0 m 45.0 t'')]
   \<and> extract_configurations ''LOAD boom 12.0 m 8.0 m 45.0 t'' = []
   \<and> extract_load_points ''TON boom 12.0 m 8.0 m 45.0 t'' ''UNKNOWN'' =
       Inr [(''TON'', Some (Finite 12), Some (Finite 8), Some (Finite 45),
               ''TON boom 12.0 m 8.0 m 45.0 t''),
            (''TON'', Some (Finite 12), None, Some (Finite 45),
               ''TON boom 12.0 m 8.0 m 45.0 t'')]
   \<and> extract_configurations ''TON boom 12.0 m 8.0 m 45.0 t'' = []
   \<and> extract_load_points ''XY 12.0 m 8.0 m 45.0 t'' ''UNKNOWN'' =
       Inr [(''XY'', Some (Finite 12), Some (Finite 8), Some (Finite 45),
               ''XY 12.0 m 8.0 m 45.0 t''),
            (''XY'', Some (Finite 12), None, Some (Finite 45), ''XY 12.0 m 8.0 m 45.0 t'')]
   \<and> extract_configurations ''XY 12.0 m 8.0 m 45.0 t'' = []"
proof -
  have switch: "\<exists>new. load_step (cfg, points) part = Inr (group caps 1, points @ new)"
    if "\<not> length (normalise part) < 4"
      and "re_match LEADING_CODE_RE (normalise part) = Some caps"
    for cfg points part caps
  proof -
    define p where "p = normalise part"
    from that have c: "switch_config cfg p = group caps 1"
      by (simp add: switch_config_def p_def)
    obtain pts where t:
      "triple_loop (group caps 1) p points (findall3 TRIPLE_RE p) = Inr (points @ pts)"
      using triple_loop_filter by blast
    obtain new where "fallback (group caps 1) p (points @ pts) = Inr ((points @ pts) @ new)"
      using fallback_total by blast
    with that(1) t c have "load_step (cfg, points) part = Inr (group caps 1, points @ (pts @ new))"
      by (simp add: load_step_def Let_def p_def)
    then show ?thesis by blast
  qed
  have stop: "''LOAD'' \<in> set STOP_CODES" "''TON'' \<in> set STOP_CODES"
    by (simp_all add: STOP_CODES_def)
  have configs: "extract_configurations ''LOAD boom 12.0 m 8.0 m 45.0 t'' = []"
    "extract_configurations ''TON boom 12.0 m 8.0 m 45.0 t'' = []"
    "extract_configurations ''XY 12.0 m 8.0 m 45.0 t'' = []"
    by (simp_all add: extract_configurations_def configurations_of_parts_def split_examples
          scan_no_hint config_examples)
  have points:
    "extract_load_points ''LOAD boom 12.0 m 8.0 m 45.0 t'' ''UNKNOWN'' =
       Inr [(''LOAD'', Some (Finite 12), Some (Finite 8), Some (Finite 45),
               ''LOAD boom 12.0 m 8.0 m 45.0 t''),
            (''LOAD'', Some (Finite 12), None, Some (Finite 45),
               ''LOAD boom 12.0 m 8.0 m 45.0 t'')]"
    "extract_load_points ''TON boom 12.0 m 8.0 m 45.0 t'' ''UNKNOWN'' =
       Inr [(''TON'', Some (Finite 12), Some (Finite 8), Some (Finite 45),
               ''TON boom 12.0 m 8.0 m 45.0 t''),
            (''TON'', Some (Finite 12), None, Some (Finite 45),
               ''TON boom 12.0 m 8.0 m 45.0 t'')]"
    "extract_load_points ''XY 12.0 m 8.0 m 45.0 t'' ''UNKNOWN'' =
       Inr [(''XY'', Some (Finite 12), Some (Finite 8), Some (Finite 45),
               ''XY 12.0 m 8.0 m 45.0 t''),
            (''XY'', Some (Finite 12), None, Some (Finite 45), ''XY 12.0 m 8.0 m 45.0 t'')]"
    by (simp_all add: points_eval split_examples scan_no_hint step_load step_ton step_no_hint)
  from switch have general: "\<forall>cfg points part caps.
       \<not> length (normalise part) < 4 \<and> re_match LEADING_CODE_RE (normalise part) = Some caps
       \<longrightarrow> (\<exists>new. load_step (cfg, points) part = Inr (group caps 1, points @ new))"
    by blast
  from general stop configs points scan_no_hint(8) show ?thesis
    by (intro conjI) assumption+
qed

theorem config_switch_unfiltered_witness:
  "\<not> length (normalise ''LOAD boom 12.0 m 8.0 m 45.0 t'') < 4
   \<and> re_match LEADING_CODE_RE (normalise ''LOAD boom 12.0 m 8.0 m 45.0 t'') = Some [(1, ''LOAD'')]
   \<and> (\<exists>new. load_step (''MB'', []) ''LOAD boom 12.0 m 8.0 m 45.0 t'' = Inr (''LOAD'', new))"
proof -
  have len: "\<not> length (normalise ''LOAD boom 12.0 m 8.0 m 45.0 t'') < 4"
    by (simp add: scan_load)
  have m: "re_match LEADING_CODE_RE (normalise ''LOAD boom 12.0 m 8.0 m 45.0 t'') =
      Some [(1, ''LOAD'')]"
    by (simp add: scan_load)
  from config_switch_unfiltered len m
  have "\<exists>new. load_step (''MB'', []) ''LOAD boom 12.0 m 8.0 m 45.0 t'' =
      Inr (group [(1, ''LOAD'')] 1, [] @ new)"
    by blast
  then have "\<exists>new. load_step (''MB'', []) ''LOAD boom 12.0 m 8.0 m 45.0 t'' = Inr (''LOAD'', new)"
    by (simp only: group_def map_of.simps fst_conv snd_conv fun_upd_same option.case append_Nil)
  with len m show ?thesis by blast
qed

section \<open>The pipeline never raises\<close>

lemma empty_text:
  "re_sub WS_RE '' '' [] = []"
  "normalise [] = []"
  by code_simp+

lemma pdf_step_skips:
  assumes "case stream_at data m_end of None \<Rightarrow> True
           | Some stream \<Rightarrow> \<not> text_stream decompress stream"
  shows "pdf_step decompress utf16 data chunks (m_start, m_end, caps) = chunks"
  using assms
  by (auto simp: pdf_step_def text_stream_def split: option.splits sum.splits)

lemma no_text_stream_no_chunks:
  "list_all (\<lambda>stream. \<not> text_stream decompress stream)
      (concat (map (\<lambda>(m_start, m_end, caps).
                 case stream_at data m_end of None \<Rightarrow> [] | Some stream \<Rightarrow> [stream]) ms))
     \<Longrightarrow> foldl (pdf_step decompress utf16 data) chunks ms = chunks"
proof (induction ms arbitrary: chunks)
  case Nil
  show ?case by simp
next
  case (Cons m ms)
  obtain m_start m_end caps where m: "m = (m_start, m_end, caps)" by (cases m)
  from Cons.prems have "case stream_at data m_end of None \<Rightarrow> True
           | Some stream \<Rightarrow> \<not> text_stream decompress stream"
    unfolding m by (auto split: option.splits)
  then have "pdf_step decompress utf16 data chunks m = chunks"
    unfolding m by (rule pdf_step_skips)
  moreover from Cons.prems have "list_all (\<lambda>stream. \<not> text_stream decompress stream)
      (concat (map (\<lambda>(m_start, m_end, caps).
                 case stream_at data m_end of None \<Rightarrow> [] | Some stream \<Rightarrow> [stream]) ms))"
    by simp
  ultimately show ?case using Cons.IH by simp
qed

lemma extract_load_points_total: "\<exists>points. extract_load_points text cfg = Inr points"
proof -
  obtain points where "collect_points (split_candidates text) cfg = Inr points"
    using collect_points_total by blast
  then show ?thesis by (simp add: extract_load_points_def load_points_of_parts_def)
qed

lemma empty_text_results:
  "extract_configurations [] = []"
  "extract_load_points [] cfg = Inr []"
  by (simp_all add: extract_configurations_def configurations_of_parts_def split_examples
        config_examples points_eval load_step_def empty_text)

text \<open>
  Claim C3: whatever the bytes are, and whatever \<open>zlib.decompress\<close> and the UTF-16 decoder
  do on them, the load-point extractor returns a list of points (it raises on no text), so
  the core pipeline returns a configuration mapping and a list of load points. When no
  candidate stream of the file is a valid compressed text stream, the decoder returns the
  empty text, and the pipeline returns no configuration and no load point.
\<close>

theorem core_pipeline_never_raises:
  "(\<exists>points. extract_load_points text cfg = Inr points)
   \<and> (\<exists>configs points. core_pipeline decompress utf16 data = (configs, Inr points))
   \<and> (list_all (\<lambda>stream. \<not> text_stream decompress stream) (candidate_streams data)
        \<longrightarrow> extract_pdf_text decompress utf16 data = []
            \<and> core_pipeline decompress utf16 data = ([], Inr []))"
proof (intro conjI impI)
  show "\<exists>points. extract_load_points text cfg = Inr points"
    by (rule extract_load_points_total)
  show "\<exists>configs points. core_pipeline decompress utf16 data = (configs, Inr points)"
    using extract_load_points_total [of "extract_pdf_text decompress utf16 data" "''UNKNOWN''"]
    by (auto simp: core_pipeline_def Let_def)
next
  assume "list_all (\<lambda>stream. \<not> text_stream decompress stream) (candidate_streams data)"
  then have "foldl (pdf_step decompress utf16 data) [] (finditer STREAM_RE data) = []"
    unfolding candidate_streams_def by (rule no_text_stream_no_chunks)
  then show empty: "extract_pdf_text decompress utf16 data = []"
    by (simp add: extract_pdf_text_def empty_text strip_def strip_chars_def)
  show "core_pipeline decompress utf16 data = ([], Inr [])"
    by (simp add: core_pipeline_def empty empty_text_results)
qed

text \<open>
  A file with one candidate stream that does not inflate: the text is empty and both result
  sets are empty.
\<close>

theorem core_pipeline_never_raises_witness:
  "candidate_streams (''stream'' @ [CHR 0x0A] @ ''abc'' @ [CHR 0x0A] @ ''endstream'') = [''abc'']
   \<and> list_all (\<lambda>stream. \<not> text_stream (\<lambda>s. Inl ZlibError) stream)
        (candidate_streams (''stream'' @ [CHR 0x0A] @ ''abc'' @ [CHR 0x0A] @ ''endstream''))
   \<and> extract_pdf_text (\<lambda>s. Inl ZlibError) (\<lambda>s. Inl ValueError)
        (''stream'' @ [CHR 0x0A] @ ''abc'' @ [CHR 0x0A] @ ''endstream'') = []
   \<and> core_pipeline (\<lambda>s. Inl ZlibError) (\<lambda>s. Inl ValueError)
        (''stream'' @ [CHR 0x0A] @ ''abc'' @ [CHR 0x0A] @ ''endstream'') = ([], Inr [])"
proof -
  have streams:
    "candidate_streams (''stream'' @ [CHR 0x0A] @ ''abc'' @ [CHR 0x0A] @ ''endstream'') = [''abc'']"
    by code_simp
  have none: "list_all (\<lambda>stream. \<not> text_stream (\<lambda>s. Inl ZlibError) stream)
        (candidate_streams (''stream'' @ [CHR 0x0A] @ ''abc'' @ [CHR 0x0A] @ ''endstream''))"
    by (simp only: streams) (simp add: text_stream_def)
  from core_pipeline_never_raises [of "[]" "[]" "\<lambda>s. Inl ZlibError" "\<lambda>s. Inl ValueError"
      "''stream'' @ [CHR 0x0A] @ ''abc'' @ [CHR 0x0A] @ ''endstream''"] none streams
  show ?thesis by blast
qed

text \<open>
  The decoder on a stream that does inflate to text operators: the literals of both
  operators are collected in order.
\<close>

lemma extract_pdf_text_example:
  "extract_pdf_text (\<lambda>s. Inr ''BT (Hello) Tj [(Wor) 5 (ld)] TJ ET'') (\<lambda>s. Inl ValueError)
     (''stream'' @ [CHR 0x0A] @ ''abc'' @ [CHR 0x0A] @ ''endstream'') = ''Hello Wor ld''"
  by code_simp

end
